theory Spec2Isabelle
  imports Main "HOL-Library.Multiset"
begin

section \<open>Conversation and agent-turn orchestration (phase-3 backend)\<close>

text \<open>
  A shallow embedding of \<^verbatim>\<open>services/conversations.py\<close>, \<^verbatim>\<open>services/chat.py\<close> and
  \<^verbatim>\<open>api/chat.py\<close>. The SQLModel session is an explicit state: the committed rows of the
  two tables in insertion order, together with the counters of the three things the
  code draws from outside (fresh UUIDs, the wall clock, the store's answer to a commit)
  and a log of the calls made to the agent.
\<close>

subsection \<open>Data model\<close>

type_synonym uuid = nat
type_synonym datetime = int

text \<open>
  A Python \<^verbatim>\<open>str\<close> is a sequence of Unicode code points; \<open>ascii\<close> writes one from an
  ASCII literal.
\<close>

type_synonym pystr = "nat list"

definition ascii :: "string \<Rightarrow> pystr" where
  "ascii cs = map of_char cs"

text \<open>
  Modelled from the spec: \<^verbatim>\<open>models/conversation.py\<close> is not among the sources. A
  Conversation has an opaque unique identifier, the owning user's identifier, a creation
  time and a last-updated time; the code reads \<^verbatim>\<open>id\<close>, \<^verbatim>\<open>user_id\<close> and \<^verbatim>\<open>updated_at\<close>.
\<close>

record conversation =
  c_id :: uuid
  c_user_id :: uuid
  c_created_at :: datetime
  c_updated_at :: datetime

text \<open>
  Modelled from the spec: \<^verbatim>\<open>models/message.py\<close> is not among the sources. A Message has
  an opaque unique identifier, the owning conversation's identifier, a role, a content
  and a server-assigned creation time; the code reads \<^verbatim>\<open>conversation_id\<close>, \<^verbatim>\<open>role\<close>,
  \<^verbatim>\<open>content\<close> and \<^verbatim>\<open>created_at\<close>.
\<close>

record message =
  m_id :: uuid
  m_conversation_id :: uuid
  m_role :: pystr
  m_content :: pystr
  m_created_at :: datetime

type_synonym history = "(pystr \<times> pystr) list"

text \<open>
  A Python exception, by where it was raised and the text \<^verbatim>\<open>str(e)\<close> gives for it.
\<close>

datatype exn = StoreFailure pystr | AgentFailure pystr

fun str :: "exn \<Rightarrow> pystr" where
  "str (StoreFailure msg) = msg"
| "str (AgentFailure msg) = msg"

text \<open>
  What the code takes from outside: the \<open>n\<close>-th reading of the wall clock, whether the
  \<open>n\<close>-th commit is refused by the store (and with which exception text), and the agent
  (\<^verbatim>\<open>mcp/agent.py\<close> is not among the sources: \<^verbatim>\<open>ChatAgent(session, user_id).process_message\<close>
  is a black box from the user and the history to a reply text or an exception).
  Statements that only read the store are taken to succeed. The two fields after the agent
  are the order in which the store returns rows whose sort keys are equal, which
  \<^verbatim>\<open>ORDER BY\<close> leaves to it: a rank of each row among the rows selected. The last field
  is whether the store enforces that the conversation of a message exists (the
  specification has the store enforce conversation membership; the models, where the key
  is declared, are not among the sources, and an engine may leave a declared key
  unchecked): \<open>None\<close> when it does not, and the text of the exception it raises when it
  does.
\<close>

record env =
  clk :: "nat \<Rightarrow> datetime"
  commit_fault :: "nat \<Rightarrow> pystr option"
  agent :: "uuid \<Rightarrow> history \<Rightarrow> pystr + pystr"
  conversation_tie :: "conversation list \<Rightarrow> conversation \<Rightarrow> int"
  message_tie :: "message list \<Rightarrow> message \<Rightarrow> int"
  foreign_key :: "pystr option"

record state =
  conversations :: "conversation list"
  messages :: "message list"
  next_uuid :: nat
  ticks :: nat
  commits :: nat
  agent_log :: "(uuid \<times> history) list"

text \<open>
  \<^verbatim>\<open>uuid4\<close> is taken to return an identifier that was not returned before, and
  \<^verbatim>\<open>datetime.now\<close> the next reading of the clock; no assumption is made on how the readings
  compare.
\<close>

definition uuid4 :: "state \<Rightarrow> uuid \<times> state" where
  "uuid4 s = (next_uuid s, s\<lparr>next_uuid := Suc (next_uuid s)\<rparr>)"

definition now :: "env \<Rightarrow> state \<Rightarrow> datetime \<times> state" where
  "now e s = (clk e (ticks s), s\<lparr>ticks := Suc (ticks s)\<rparr>)"

text \<open>
  \<^verbatim>\<open>session.commit()\<close>: \<open>s0\<close> is the state when the transaction began, \<open>s\<close> the state with
  the rows added and changed since. The session writes these rows to the store at the
  commit at the latest, and the model takes every refusal of the store to be raised there.
  The store refuses when \<open>commit_fault\<close> says so and, where it enforces the foreign key,
  when a message added in the transaction names a conversation that no Conversation row
  has. A refused commit raises and leaves the tables as they were at \<open>s0\<close>; the store is
  assumed to make a transaction atomic.
\<close>

definition orphans :: "state \<Rightarrow> state \<Rightarrow> message list" where
  "orphans s0 s =
     filter (\<lambda>m. find (\<lambda>c. c_id c = m_conversation_id m) (conversations s) = None)
       (drop (length (messages s0)) (messages s))"

definition refusal :: "env \<Rightarrow> state \<Rightarrow> state \<Rightarrow> pystr option" where
  "refusal e s0 s =
     (case commit_fault e (commits s) of
        Some msg \<Rightarrow> Some msg
      | None \<Rightarrow> if orphans s0 s = [] then None else foreign_key e)"

definition commit :: "env \<Rightarrow> state \<Rightarrow> state \<Rightarrow> (exn + unit) \<times> state" where
  "commit e s0 s =
     (case refusal e s0 s of
        None \<Rightarrow> (Inr (), s\<lparr>commits := Suc (commits s)\<rparr>)
      | Some msg \<Rightarrow>
          (Inl (StoreFailure msg),
           s\<lparr>conversations := conversations s0, messages := messages s0,
             commits := Suc (commits s)\<rparr>))"

subsection \<open>Queries\<close>

text \<open>
  \<^verbatim>\<open>ORDER BY key DESC\<close>: the rows by descending key. The query names no second key, so
  rows with equal keys come in the order the store gives them: by ascending \<open>tie rows\<close>,
  and in storage order where that is equal too. Nothing is assumed of \<open>tie\<close>, so every
  order of such rows is the result under some \<open>tie\<close>.
\<close>

definition order_by_desc :: "('a list \<Rightarrow> 'a \<Rightarrow> int) \<Rightarrow> ('a \<Rightarrow> datetime) \<Rightarrow> 'a list \<Rightarrow> 'a list" where
  "order_by_desc tie key rows = sort_key (\<lambda>r. - key r) (sort_key (tie rows) rows)"

definition first :: "'a list \<Rightarrow> 'a option" where
  "first rows = (case rows of [] \<Rightarrow> None | r # _ \<Rightarrow> Some r)"

definition user_conversations :: "state \<Rightarrow> uuid \<Rightarrow> conversation list" where
  "user_conversations s user_id = filter (\<lambda>c. c_user_id c = user_id) (conversations s)"

definition conversation_messages :: "state \<Rightarrow> uuid \<Rightarrow> message list" where
  "conversation_messages s conversation_id =
     filter (\<lambda>m. m_conversation_id m = conversation_id) (messages s)"

text \<open>
  The \<^verbatim>\<open>UPDATE\<close> the session emits for a conversation whose \<^verbatim>\<open>updated_at\<close> was assigned:
  the row with that primary key gets the new time.
\<close>

definition set_updated_at :: "uuid \<Rightarrow> datetime \<Rightarrow> conversation list \<Rightarrow> conversation list" where
  "set_updated_at conversation_id t rows =
     map (\<lambda>c. if c_id c = conversation_id then c\<lparr>c_updated_at := t\<rparr> else c) rows"

subsection \<open>services/conversations.py\<close>

text \<open>
  \<^verbatim>\<open>.first()\<close> of the user's conversations, newest \<^verbatim>\<open>updated_at\<close> first. When there is none,
  \<^verbatim>\<open>Conversation(user_id=user_id)\<close> is built with the defaults of the model (a fresh
  identifier and a clock reading for each of the two times), added and committed;
  \<^verbatim>\<open>session.refresh\<close> re-reads the committed row, which is the row as built.
\<close>

definition get_or_create_conversation :: "env \<Rightarrow> state \<Rightarrow> uuid \<Rightarrow> (exn + conversation) \<times> state" where
  "get_or_create_conversation e s user_id =
     (case first (order_by_desc (conversation_tie e) c_updated_at (user_conversations s user_id)) of
        Some conversation \<Rightarrow> (Inr conversation, s)
      | None \<Rightarrow>
          (let (cid, s1) = uuid4 s;
               (created, s2) = now e s1;
               (updated, s3) = now e s2;
               conversation = \<lparr>c_id = cid, c_user_id = user_id,
                                c_created_at = created, c_updated_at = updated\<rparr>;
               s4 = s3\<lparr>conversations := conversations s3 @ [conversation]\<rparr>
           in case commit e s s4 of
                (Inl x, s5) \<Rightarrow> (Inl x, s5)
              | (Inr _, s5) \<Rightarrow> (Inr conversation, s5)))"

text \<open>The limit is a row count: a negative \<^verbatim>\<open>LIMIT\<close> depends on the engine and is left out.\<close>

definition get_recent_messages :: "env \<Rightarrow> state \<Rightarrow> uuid \<Rightarrow> nat \<Rightarrow> message list" where
  "get_recent_messages e s conversation_id limit =
     rev (take limit (order_by_desc (message_tie e) m_created_at (conversation_messages s conversation_id)))"

text \<open>
  \<^verbatim>\<open>Message(...)\<close> is built with the defaults of the model (a fresh identifier and a clock
  reading for \<^verbatim>\<open>created_at\<close>) and added; \<^verbatim>\<open>session.get\<close> looks the conversation up by its
  primary key and, when there is one, \<^verbatim>\<open>datetime.now\<close> is read again for its
  \<^verbatim>\<open>updated_at\<close>; one commit ends the transaction.
\<close>

definition store_message :: "env \<Rightarrow> state \<Rightarrow> uuid \<Rightarrow> pystr \<Rightarrow> pystr \<Rightarrow> (exn + message) \<times> state" where
  "store_message e s conversation_id role content =
     (let (mid, s1) = uuid4 s;
          (created, s2) = now e s1;
          message = \<lparr>m_id = mid, m_conversation_id = conversation_id, m_role = role,
                     m_content = content, m_created_at = created\<rparr>;
          s3 = s2\<lparr>messages := messages s2 @ [message]\<rparr>;
          s4 = (case find (\<lambda>c. c_id c = conversation_id) (conversations s3) of
                  None \<Rightarrow> s3
                | Some conversation \<Rightarrow>
                    (let (updated, s') = now e s3
                     in s'\<lparr>conversations :=
                              set_updated_at conversation_id updated (conversations s')\<rparr>))
      in case commit e s s4 of
           (Inl x, s5) \<Rightarrow> (Inl x, s5)
         | (Inr _, s5) \<Rightarrow> (Inr message, s5))"

subsection \<open>services/chat.py\<close>

text \<open>
  The history is a list of role/content pairs (the source builds a dictionary with these
  two keys for each message). The call of the agent is entered in \<open>agent_log\<close> before its
  outcome is known; an exception of any callee ends the turn with that exception.
\<close>

definition process_user_message :: "env \<Rightarrow> state \<Rightarrow> uuid \<Rightarrow> pystr \<Rightarrow> (exn + message) \<times> state" where
  "process_user_message e s user_id message_content =
     (case get_or_create_conversation e s user_id of
        (Inl x, s1) \<Rightarrow> (Inl x, s1)
      | (Inr conversation, s1) \<Rightarrow>
          (case store_message e s1 (c_id conversation) (ascii ''user'') message_content of
             (Inl x, s2) \<Rightarrow> (Inl x, s2)
           | (Inr _, s2) \<Rightarrow>
               (let recent_messages = get_recent_messages e s2 (c_id conversation) 50;
                    history = map (\<lambda>m. (m_role m, m_content m)) recent_messages;
                    s3 = s2\<lparr>agent_log := agent_log s2 @ [(user_id, history)]\<rparr>
                in case agent e user_id history of
                     Inl msg \<Rightarrow> (Inl (AgentFailure msg), s3)
                   | Inr response_content \<Rightarrow>
                       store_message e s3 (c_id conversation) (ascii ''assistant'') response_content)))"

subsection \<open>api/chat.py\<close>

datatype 'a http = Response 'a | HTTPException nat pystr

record conversation_response =
  r_id :: uuid
  r_messages :: "message list"
  r_updated_at :: datetime

text \<open>
  \<^verbatim>\<open>str.strip()\<close> removes from both ends the code points Python counts as whitespace
  (\<^verbatim>\<open>str.isspace\<close>): the ASCII controls 9 to 13 and 28 to 31, the space, and the
  Unicode spaces and separators U+0085, U+00A0, U+1680, U+2000 to U+200A, U+2028,
  U+2029, U+202F, U+205F and U+3000.
\<close>

definition isspace :: "nat \<Rightarrow> bool" where
  "isspace c \<longleftrightarrow>
     (9 \<le> c \<and> c \<le> 13) \<or> (28 \<le> c \<and> c \<le> 32) \<or> c = 133 \<or> c = 160 \<or> c = 5760 \<or>
     (8192 \<le> c \<and> c \<le> 8202) \<or> c = 8232 \<or> c = 8233 \<or> c = 8239 \<or> c = 8287 \<or>
     c = 12288"

definition strip :: "pystr \<Rightarrow> pystr" where
  "strip x = rev (dropWhile isspace (rev (dropWhile isspace x)))"

definition chat :: "env \<Rightarrow> state \<Rightarrow> uuid \<Rightarrow> pystr \<Rightarrow> message http \<times> state" where
  "chat e s current_user request_message =
     (if strip request_message = []
      then (HTTPException 400 (ascii ''Message cannot be empty''), s)
      else (case process_user_message e s current_user request_message of
              (Inr response_message, s1) \<Rightarrow> (Response response_message, s1)
            | (Inl x, s1) \<Rightarrow> (HTTPException 500 (str x), s1)))"

text \<open>
  \<^verbatim>\<open>GET /conversations\<close>. The identifier and the time are returned as they are; the
  source renders them with \<^verbatim>\<open>str\<close> and \<^verbatim>\<open>isoformat\<close>.
\<close>

definition get_conversation :: "env \<Rightarrow> state \<Rightarrow> uuid \<Rightarrow> (exn + conversation_response) \<times> state" where
  "get_conversation e s current_user =
     (case get_or_create_conversation e s current_user of
        (Inl x, s1) \<Rightarrow> (Inl x, s1)
      | (Inr conversation, s1) \<Rightarrow>
          (Inr \<lparr>r_id = c_id conversation,
                r_messages = get_recent_messages e s1 (c_id conversation) 50,
                r_updated_at = c_updated_at conversation\<rparr>, s1))"

subsection \<open>What the rows of a call are\<close>

text \<open>
  The Message row \<open>store_message\<close> builds in state \<open>s\<close>, and the Conversation row
  \<open>get_or_create_conversation\<close> builds there: names for the statements below.
\<close>

definition new_message :: "env \<Rightarrow> state \<Rightarrow> uuid \<Rightarrow> pystr \<Rightarrow> pystr \<Rightarrow> message" where
  "new_message e s conversation_id role content =
     \<lparr>m_id = next_uuid s, m_conversation_id = conversation_id, m_role = role,
      m_content = content, m_created_at = clk e (ticks s)\<rparr>"

definition new_conversation :: "env \<Rightarrow> state \<Rightarrow> uuid \<Rightarrow> conversation" where
  "new_conversation e s user_id =
     \<lparr>c_id = next_uuid s, c_user_id = user_id,
      c_created_at = clk e (ticks s), c_updated_at = clk e (Suc (ticks s))\<rparr>"

text \<open>
  The text of the exception with which the commit of \<open>store_message\<close> is refused, if it
  is: what \<open>commit_fault\<close> says or, for a conversation that no row has, the foreign key.
\<close>

definition store_refusal :: "env \<Rightarrow> state \<Rightarrow> uuid \<Rightarrow> pystr option" where
  "store_refusal e s conversation_id =
     (case commit_fault e (commits s) of
        Some msg \<Rightarrow> Some msg
      | None \<Rightarrow>
          if find (\<lambda>c. c_id c = conversation_id) (conversations s) = None
          then foreign_key e else None)"

text \<open>The history \<open>process_user_message\<close> hands to the agent when the store is \<open>s\<close>.\<close>

definition history_of :: "env \<Rightarrow> state \<Rightarrow> uuid \<Rightarrow> history" where
  "history_of e s conversation_id =
     map (\<lambda>m. (m_role m, m_content m)) (get_recent_messages e s conversation_id 50)"

text \<open>
  The messages of a conversation in the reverse of the order the store gives to rows with
  equal keys: the ascending stable sort of this list by creation time is the reverse of
  what the query of \<open>get_recent_messages\<close> returns before the limit is applied.
\<close>

definition scanned :: "env \<Rightarrow> state \<Rightarrow> uuid \<Rightarrow> message list" where
  "scanned e s conversation_id =
     rev (sort_key (message_tie e (conversation_messages s conversation_id))
            (conversation_messages s conversation_id))"

subsection \<open>Properties of a store\<close>

text \<open>
  Every stored creation time is a reading the clock gave at an earlier tick; the creation
  times of one conversation strictly increase in storage order; identifiers in use were
  drawn before; a user owns at most one conversation.
\<close>

definition clock_stamped :: "env \<Rightarrow> state \<Rightarrow> bool" where
  "clock_stamped e s \<longleftrightarrow> (\<forall>m\<in>set (messages s). \<exists>i<ticks s. m_created_at m = clk e i)"

definition chronological :: "state \<Rightarrow> uuid \<Rightarrow> bool" where
  "chronological s conversation_id \<longleftrightarrow>
     sorted_wrt (<) (map m_created_at (conversation_messages s conversation_id))"

definition fresh_ids :: "state \<Rightarrow> bool" where
  "fresh_ids s \<longleftrightarrow>
     (\<forall>c\<in>set (conversations s). c_id c < next_uuid s) \<and>
     (\<forall>m\<in>set (messages s). m_conversation_id m < next_uuid s)"

definition one_conversation_per_user :: "state \<Rightarrow> bool" where
  "one_conversation_per_user s \<longleftrightarrow> distinct (map c_user_id (conversations s))"

subsection \<open>Concrete stores and environments\<close>

definition empty_store :: state where
  "empty_store =
     \<lparr>conversations = [], messages = [], next_uuid = 0, ticks = 0, commits = 0,
      agent_log = []\<rparr>"

text \<open>A clock that advances at every reading, a store that accepts every commit,
  returns rows with equal keys in storage order and does not enforce the foreign key, an
  agent that always replies.\<close>

definition ticking :: env where
  "ticking = \<lparr>clk = (\<lambda>n. int n), commit_fault = (\<lambda>n. None),
              agent = (\<lambda>u h. Inr (ascii ''Hi there'')),
              conversation_tie = (\<lambda>rows c. 0), message_tie = (\<lambda>rows m. 0),
              foreign_key = None\<rparr>"

text \<open>A clock that returns the same reading every time; a store that refuses every commit;
  an agent that times out.\<close>

definition stalled :: env where
  "stalled = ticking\<lparr>clk := (\<lambda>n. 0)\<rparr>"

definition refusing :: env where
  "refusing = ticking\<lparr>commit_fault := (\<lambda>n. Some (ascii ''connection lost''))\<rparr>"

text \<open>A store that enforces the foreign key.\<close>

definition enforcing :: env where
  "enforcing = ticking\<lparr>foreign_key := Some (ascii ''FOREIGN KEY constraint failed'')\<rparr>"


text \<open>The store after user 7 has had one complete turn.\<close>

definition after_hello :: state where
  "after_hello = snd (process_user_message ticking empty_store 7 (ascii ''Hello''))"

subsection \<open>The kinds of failure\<close>

text \<open>
  The four kinds of failure the specification names, read off a turn submitted through
  \<open>chat\<close>: blank input is a validation error; an exception of the agent is an agent
  error; an exception of the store is a persistence error when the agent has not been
  called in this turn, and a post-agent persistence error when it has.
\<close>

datatype error_kind = ValidationError | PersistenceError | AgentError | PostAgentPersistenceError

definition turn_failure :: "env \<Rightarrow> state \<Rightarrow> uuid \<Rightarrow> pystr \<Rightarrow> error_kind option" where
  "turn_failure e s u body =
     (if strip body = [] then Some ValidationError
      else (case process_user_message e s u body of
              (Inr m, s') \<Rightarrow> None
            | (Inl (AgentFailure msg), s') \<Rightarrow> Some AgentError
            | (Inl (StoreFailure msg), s') \<Rightarrow>
                if agent_log s' = agent_log s then Some PersistenceError
                else Some PostAgentPersistenceError))"

text \<open>A store that refuses the \<open>n\<close>-th commit and no other.\<close>

definition refusing_at :: "nat \<Rightarrow> env" where
  "refusing_at n =
     ticking\<lparr>commit_fault := (\<lambda>k. if k = n then Some (ascii ''connection lost'') else None)\<rparr>"

text \<open>An agent whose exception has the text of the store's.\<close>

definition disconnected :: env where
  "disconnected = ticking\<lparr>agent := (\<lambda>u h. Inl (ascii ''connection lost''))\<rparr>"


text \<open>The stores inside the first turn of user 7: after the conversation was resolved, and
  after the user's message was stored.\<close>

definition resolved :: state where
  "resolved = snd (get_or_create_conversation ticking empty_store 7)"

definition user_stored :: state where
  "user_stored = snd (store_message ticking resolved 0 (ascii ''user'') (ascii ''Hello''))"

text \<open>A clock that is set back after the first six readings.\<close>

definition rewound :: env where
  "rewound = ticking\<lparr>clk := (\<lambda>n. if n < 6 then 100 + int n else int n)\<rparr>"

text \<open>The store after a complete first turn of user 7 under that clock.\<close>

definition after_hello_rewound :: state where
  "after_hello_rewound = snd (process_user_message rewound empty_store 7 (ascii ''Hello''))"




subsection \<open>Reachable stores\<close>

text \<open>
  The stores the two endpoints can produce from the empty store, one request after
  another.
\<close>

inductive reachable :: "env \<Rightarrow> state \<Rightarrow> bool" for e :: env where
  start: "reachable e empty_store"
| turn: "reachable e s \<Longrightarrow> reachable e (snd (chat e s u body))"
| read: "reachable e s \<Longrightarrow> reachable e (snd (get_conversation e s u))"

section \<open>Lemmas\<close>

subsection \<open>ASCII literals\<close>

lemma ascii_Nil [simp]: "ascii cs = [] \<longleftrightarrow> cs = []"
  by (simp add: ascii_def)

lemma ascii_eq [simp]: "ascii a = ascii b \<longleftrightarrow> a = b"
proof -
  have "inj (of_char :: char \<Rightarrow> nat)" by (rule injI) simp
  then show ?thesis by (simp add: ascii_def inj_map_eq_map)
qed

subsection \<open>Sorting\<close>

lemma sorted_rev_uminus: "sorted (xs :: int list) \<Longrightarrow> sorted (rev (map uminus xs))"
  by (induction xs) (auto simp: sorted_append)

lemma sort_key_desc:
  fixes key :: "'a \<Rightarrow> int"
  shows "sort_key (\<lambda>r. - key r) xs = rev (sort_key key (rev xs))"
proof (rule properties_for_sort_key)
  show "mset (rev (sort_key key (rev xs))) = mset xs" by simp
  show "sorted (map (\<lambda>r. - key r) (rev (sort_key key (rev xs))))"
    using sorted_rev_uminus [of "map key (sort_key key (rev xs))"]
    by (simp add: rev_map comp_def)
  fix k
  have "filter (\<lambda>x. key x = key k) (sort_key key (rev xs)) = filter (\<lambda>x. key x = key k) (rev xs)"
    by (rule sort_key_stable)
  then have "rev (filter (\<lambda>x. key x = key k) (sort_key key (rev xs))) = filter (\<lambda>x. key x = key k) xs"
    by (simp add: rev_filter)
  moreover have "(\<lambda>x. - key k = - key x) = (\<lambda>x. key x = key k)" by auto
  ultimately show "filter (\<lambda>x. - key k = - key x) (rev (sort_key key (rev xs))) =
      filter (\<lambda>x. - key k = - key x) xs"
    by (simp add: rev_filter)
qed

lemma order_by_desc_rev:
  "order_by_desc tie key rows = rev (sort_key key (rev (sort_key (tie rows) rows)))"
  by (simp add: order_by_desc_def sort_key_desc)

lemma mset_order_by_desc [simp]: "mset (order_by_desc tie key rows) = mset rows"
  by (simp add: order_by_desc_def)

lemma set_order_by_desc [simp]: "set (order_by_desc tie key rows) = set rows"
  by (simp add: order_by_desc_def)

lemma order_by_desc_singleton: "order_by_desc tie key [x] = [x]"
  by (simp add: order_by_desc_def)

lemma filter_key_single:
  "distinct (map f xs) \<Longrightarrow> k \<in> set xs \<Longrightarrow> filter (\<lambda>x. f k = f x) xs = [k]"
  by (induction xs) (auto simp: filter_empty_conv image_iff)

lemma sort_key_strict:
  fixes key :: "'a \<Rightarrow> int"
  assumes "mset xs = mset ys" and "sorted_wrt (<) (map key ys)"
  shows "sort_key key xs = ys"
proof (rule properties_for_sort_key)
  show "mset ys = mset xs" using assms(1) by simp
  from assms(2) show "sorted (map key ys)" by (simp add: strict_sorted_iff)
  from assms(2) have d: "distinct (map key ys)" by (simp add: strict_sorted_iff)
  from assms(1) have "mset (map key xs) = mset (map key ys)" by (metis mset_map)
  with d have d': "distinct (map key xs)" by (metis mset_eq_imp_distinct_iff)
  fix k assume k: "k \<in> set ys"
  with assms(1) have k': "k \<in> set xs" by (metis mset_eq_setD)
  from d k d' k' show "filter (\<lambda>x. key k = key x) ys = filter (\<lambda>x. key k = key x) xs"
    by (simp add: filter_key_single)
qed

lemma last_sort_key_greatest:
  fixes key :: "'a \<Rightarrow> int"
  assumes "mset xs = mset (ys @ [m])" and "\<forall>x\<in>set ys. key x < key m"
  shows "last (sort_key key xs) = m"
proof -
  let ?S = "sort_key key xs"
  from assms(1) have "set xs = set (ys @ [m])" by (rule mset_eq_setD)
  then have set: "set ?S = insert m (set ys)" by simp
  then have "xs \<noteq> []" by auto
  then have ne: "?S \<noteq> []" by (metis length_0_conv length_sort)
  have "sorted (map key (butlast ?S @ [last ?S]))" using ne by simp
  then have le: "\<forall>x\<in>set (butlast ?S). key x \<le> key (last ?S)"
    unfolding map_append sorted_append by simp
  have "key m \<le> key (last ?S)"
  proof (cases "m = last ?S")
    case True
    then show ?thesis by simp
  next
    case False
    moreover have "m \<in> set (butlast ?S @ [last ?S])" using ne set by simp
    ultimately have "m \<in> set (butlast ?S)" by simp
    with le show ?thesis by blast
  qed
  moreover from ne set have "last ?S = m \<or> last ?S \<in> set ys" by (metis insertE last_in_set)
  ultimately show ?thesis using assms(2) by fastforce
qed

subsection \<open>The effect of \<open>store_message\<close>\<close>

lemma set_updated_at_absent:
  "find (\<lambda>c. c_id c = cid) rows = None \<Longrightarrow> set_updated_at cid t rows = rows"
  by (induction rows) (auto simp: set_updated_at_def split: if_splits)

lemma find_set_updated_at:
  "find (\<lambda>c. c_id c = cid) (set_updated_at cid t rows) =
     map_option (\<lambda>c. c\<lparr>c_updated_at := t\<rparr>) (find (\<lambda>c. c_id c = cid) rows)"
  by (induction rows) (auto simp: set_updated_at_def)

lemma store_message_commit:
  "store_message e s cid role content =
     (let s4 = (if find (\<lambda>c. c_id c = cid) (conversations s) = None
                then s\<lparr>next_uuid := Suc (next_uuid s), ticks := Suc (ticks s),
                       messages := messages s @ [new_message e s cid role content]\<rparr>
                else s\<lparr>next_uuid := Suc (next_uuid s), ticks := Suc (Suc (ticks s)),
                       messages := messages s @ [new_message e s cid role content],
                       conversations :=
                         set_updated_at cid (clk e (Suc (ticks s))) (conversations s)\<rparr>)
      in case store_refusal e s cid of
           None \<Rightarrow> (Inr (new_message e s cid role content), s4\<lparr>commits := Suc (commits s)\<rparr>)
         | Some msg \<Rightarrow>
             (Inl (StoreFailure msg),
              s4\<lparr>conversations := conversations s, messages := messages s,
                 commits := Suc (commits s)\<rparr>))"
proof (cases "find (\<lambda>c. c_id c = cid) (conversations s)")
  case None
  then show ?thesis
    by (simp add: store_message_def new_message_def uuid4_def now_def commit_def refusal_def
        orphans_def store_refusal_def Let_def split: option.splits)
next
  case (Some c)
  then have "find (\<lambda>c. c_id c = cid) (set_updated_at cid t (conversations s)) \<noteq> None" for t
    by (simp add: find_set_updated_at)
  with Some show ?thesis
    by (simp add: store_message_def new_message_def uuid4_def now_def commit_def refusal_def
        orphans_def store_refusal_def Let_def split: option.splits)
qed

lemma fst_store_message:
  "fst (store_message e s cid role content) =
     (case store_refusal e s cid of
        None \<Rightarrow> Inr (new_message e s cid role content)
      | Some msg \<Rightarrow> Inl (StoreFailure msg))"
  by (simp add: store_message_commit Let_def split: option.splits)

lemma messages_store_message:
  "messages (snd (store_message e s cid role content)) =
     (case store_refusal e s cid of
        None \<Rightarrow> messages s @ [new_message e s cid role content]
      | Some msg \<Rightarrow> messages s)"
  by (simp add: store_message_commit Let_def split: option.splits)

lemma conversations_store_message:
  "conversations (snd (store_message e s cid role content)) =
     (case store_refusal e s cid of
        None \<Rightarrow> set_updated_at cid (clk e (Suc (ticks s))) (conversations s)
      | Some msg \<Rightarrow> conversations s)"
  by (simp add: store_message_commit Let_def set_updated_at_absent split: option.splits)

lemma store_refusal_existing:
  "find (\<lambda>c. c_id c = cid) (conversations s) = Some c \<Longrightarrow>
     store_refusal e s cid = commit_fault e (commits s)"
  by (simp add: store_refusal_def split: option.splits)

lemma store_refusal_member:
  "c \<in> set (conversations s) \<Longrightarrow> store_refusal e s (c_id c) = commit_fault e (commits s)"
  by (auto simp: store_refusal_def find_None_iff split: option.splits)

lemma store_refusal_None:
  "store_refusal e s cid = None \<Longrightarrow> commit_fault e (commits s) = None"
  by (simp add: store_refusal_def split: option.splits)

lemma counters_store_message:
  "next_uuid (snd (store_message e s cid role content)) = Suc (next_uuid s)"
  "commits (snd (store_message e s cid role content)) = Suc (commits s)"
  "agent_log (snd (store_message e s cid role content)) = agent_log s"
  "ticks (snd (store_message e s cid role content)) =
     (if find (\<lambda>c. c_id c = cid) (conversations s) = None
      then Suc (ticks s) else Suc (Suc (ticks s)))"
  by (simp_all add: store_message_commit Let_def split: option.splits)

subsection \<open>The effect of \<open>get_or_create_conversation\<close>\<close>

lemma first_order_by_desc_None: "first (order_by_desc tie key rows) = None \<longleftrightarrow> rows = []"
proof -
  have "order_by_desc tie key rows = [] \<longleftrightarrow> rows = []"
    by (metis mset_order_by_desc mset_zero_iff)
  then show ?thesis by (cases "order_by_desc tie key rows") (auto simp: first_def)
qed

lemma first_order_by_desc_mem: "first (order_by_desc tie key rows) = Some r \<Longrightarrow> r \<in> set rows"
proof -
  assume a: "first (order_by_desc tie key rows) = Some r"
  then have "r \<in> set (order_by_desc tie key rows)"
    by (cases "order_by_desc tie key rows") (auto simp: first_def)
  then show ?thesis by simp
qed

lemma get_or_create_conversation_found:
  "first (order_by_desc (conversation_tie e) c_updated_at (user_conversations s u)) = Some c \<Longrightarrow>
     get_or_create_conversation e s u = (Inr c, s)"
  by (simp add: get_or_create_conversation_def)

lemma get_or_create_conversation_new:
  "user_conversations s u = [] \<Longrightarrow>
   get_or_create_conversation e s u =
     (case commit_fault e (commits s) of
        None \<Rightarrow> (Inr (new_conversation e s u),
                  s\<lparr>conversations := conversations s @ [new_conversation e s u],
                    next_uuid := Suc (next_uuid s), ticks := Suc (Suc (ticks s)),
                    commits := Suc (commits s)\<rparr>)
      | Some msg \<Rightarrow> (Inl (StoreFailure msg),
                  s\<lparr>next_uuid := Suc (next_uuid s), ticks := Suc (Suc (ticks s)),
                    commits := Suc (commits s)\<rparr>))"
  by (simp add: get_or_create_conversation_def new_conversation_def
      first_def order_by_desc_def uuid4_def now_def commit_def refusal_def orphans_def Let_def split: option.splits)

subsection \<open>The window of recent messages\<close>

lemma mset_scanned [simp]: "mset (scanned e s cid) = mset (conversation_messages s cid)"
  by (simp add: scanned_def)

lemma set_scanned [simp]: "set (scanned e s cid) = set (conversation_messages s cid)"
  by (simp add: scanned_def)

lemma length_scanned [simp]: "length (scanned e s cid) = length (conversation_messages s cid)"
  by (simp add: scanned_def)

lemma get_recent_messages_drop:
  "get_recent_messages e s cid limit =
     drop (length (conversation_messages s cid) - limit)
       (sort_key m_created_at (scanned e s cid))"
  by (simp add: get_recent_messages_def order_by_desc_rev scanned_def take_rev)

lemma recent_sorted: "sorted (map m_created_at (get_recent_messages e s cid limit))"
  by (simp add: get_recent_messages_drop drop_map [symmetric])

lemma recent_length:
  "length (get_recent_messages e s cid limit) = min limit (length (conversation_messages s cid))"
  by (simp add: get_recent_messages_drop)

lemma recent_all:
  "length (conversation_messages s cid) \<le> limit \<Longrightarrow>
     mset (get_recent_messages e s cid limit) = mset (conversation_messages s cid)"
  by (simp add: get_recent_messages_drop)

lemma recent_rest:
  "mset (conversation_messages s cid) - mset (get_recent_messages e s cid limit) =
     mset (take (length (conversation_messages s cid) - limit)
             (sort_key m_created_at (scanned e s cid)))"
proof -
  let ?ms = "sort_key m_created_at (scanned e s cid)"
  let ?k = "length (conversation_messages s cid) - limit"
  have "mset ?ms = mset (take ?k ?ms) + mset (drop ?k ?ms)"
    by (metis append_take_drop_id mset_append)
  then have "mset (conversation_messages s cid) = mset (take ?k ?ms) + mset (drop ?k ?ms)"
    by simp
  then show ?thesis by (simp add: get_recent_messages_drop)
qed

lemma recent_most_recent:
  assumes "x \<in># mset (conversation_messages s cid) - mset (get_recent_messages e s cid limit)"
    and "y \<in> set (get_recent_messages e s cid limit)"
  shows "m_created_at x \<le> m_created_at y"
proof -
  let ?ms = "sort_key m_created_at (scanned e s cid)"
  let ?k = "length (conversation_messages s cid) - limit"
  from assms(1) have x: "x \<in> set (take ?k ?ms)" by (simp add: recent_rest)
  from assms(2) have y: "y \<in> set (drop ?k ?ms)" by (simp add: get_recent_messages_drop)
  have "sorted (map m_created_at (take ?k ?ms @ drop ?k ?ms))" by simp
  then show ?thesis using x y unfolding map_append sorted_append by auto
qed

lemma recent_storage_order:
  "sorted_wrt (<) (map m_created_at (conversation_messages s cid)) \<Longrightarrow>
     get_recent_messages e s cid limit =
       drop (length (conversation_messages s cid) - limit) (conversation_messages s cid)"
  by (simp add: get_recent_messages_drop sort_key_strict)

lemma recent_last:
  assumes "conversation_messages s' cid = conversation_messages s cid @ [m]"
    and "\<forall>x\<in>set (conversation_messages s cid). m_created_at x < m_created_at m"
    and "0 < limit"
  shows "last (get_recent_messages e s' cid limit) = m"
proof -
  let ?S = "sort_key m_created_at (scanned e s' cid)"
  have "mset (scanned e s' cid) = mset (conversation_messages s cid @ [m])"
    by (simp add: assms(1))
  then have l: "last ?S = m" using assms(2) by (rule last_sort_key_greatest)
  have "length ?S = Suc (length (conversation_messages s cid))" by (simp add: assms(1))
  with assms(3) have "length (conversation_messages s' cid) - limit < length ?S"
    by (simp add: assms(1))
  then have "last (drop (length (conversation_messages s' cid) - limit) ?S) = last ?S"
    by (rule last_drop)
  with l show ?thesis by (simp add: get_recent_messages_drop)
qed

subsection \<open>Invariants\<close>

lemma ticks_store_message_less: "ticks s < ticks (snd (store_message e s cid role content))"
  by (simp add: counters_store_message)

lemma clock_stamped_store_message:
  assumes "clock_stamped e s"
  shows "clock_stamped e (snd (store_message e s cid role content))"
proof -
  let ?s' = "snd (store_message e s cid role content)"
  have lt: "ticks s < ticks ?s'" by (rule ticks_store_message_less)
  have "\<exists>i<ticks ?s'. m_created_at m = clk e i" if "m \<in> set (messages ?s')" for m
  proof (cases "m \<in> set (messages s)")
    case True
    with assms obtain i where "i < ticks s" "m_created_at m = clk e i"
      by (auto simp: clock_stamped_def)
    with lt show ?thesis by (intro exI[of _ i]) simp
  next
    case False
    with that have "m = new_message e s cid role content"
      by (auto simp: messages_store_message split: option.splits)
    then have "m_created_at m = clk e (ticks s)" by (simp add: new_message_def)
    with lt show ?thesis by blast
  qed
  then show ?thesis by (simp add: clock_stamped_def)
qed

lemma chronological_store_message:
  assumes "strict_mono (clk e)" and "clock_stamped e s" and "chronological s c"
  shows "chronological (snd (store_message e s cid role content)) c"
proof (cases "store_refusal e s cid")
  case None
  let ?m = "new_message e s cid role content"
  have older: "m_created_at x < m_created_at ?m" if "x \<in> set (messages s)" for x
  proof -
    from assms(2) that obtain i where "i < ticks s" "m_created_at x = clk e i"
      by (auto simp: clock_stamped_def)
    with assms(1) show ?thesis by (simp add: new_message_def strict_mono_def)
  qed
  show ?thesis
  proof (cases "cid = c")
    case True
    with None have "conversation_messages (snd (store_message e s cid role content)) c =
        conversation_messages s c @ [?m]"
      by (simp add: conversation_messages_def messages_store_message new_message_def)
    with assms(3) older show ?thesis
      by (auto simp: chronological_def sorted_wrt_append conversation_messages_def)
  next
    case False
    with None have "conversation_messages (snd (store_message e s cid role content)) c =
        conversation_messages s c"
      by (simp add: conversation_messages_def messages_store_message new_message_def)
    with assms(3) show ?thesis by (simp add: chronological_def)
  qed
next
  case (Some msg)
  then have "conversation_messages (snd (store_message e s cid role content)) c =
        conversation_messages s c"
    by (simp add: conversation_messages_def messages_store_message)
  with assms(3) show ?thesis by (simp add: chronological_def)
qed

lemma get_or_create_conversation_frame:
  "messages (snd (get_or_create_conversation e s u)) = messages s"
  "agent_log (snd (get_or_create_conversation e s u)) = agent_log s"
  "ticks s \<le> ticks (snd (get_or_create_conversation e s u))"
  by (auto simp: get_or_create_conversation_def uuid4_def now_def commit_def refusal_def orphans_def Let_def
      split: option.splits)

lemma process_user_message_preserves:
  assumes p0: "P s"
    and pc: "\<And>s u. P s \<Longrightarrow> P (snd (get_or_create_conversation e s u))"
    and ps: "\<And>s cid role content. P s \<Longrightarrow> P (snd (store_message e s cid role content))"
    and pl: "\<And>s l. P s \<Longrightarrow> P (s\<lparr>agent_log := l\<rparr>)"
  shows "P (snd (process_user_message e s u body))"
proof -
  obtain r1 s1 where g: "get_or_create_conversation e s u = (r1, s1)" by fastforce
  from pc [OF p0, of u] g have p1: "P s1" by simp
  show ?thesis
  proof (cases r1)
    case (Inl x)
    with g p1 show ?thesis by (simp add: process_user_message_def)
  next
    case (Inr conversation)
    note r1 = this
    obtain r2 s2 where st: "store_message e s1 (c_id conversation) (ascii ''user'') body = (r2, s2)"
      by fastforce
    from ps [OF p1, of "c_id conversation" "(ascii ''user'')" body] st have p2: "P s2" by simp
    show ?thesis
    proof (cases r2)
      case (Inl x)
      with g r1 st p2 show ?thesis by (simp add: process_user_message_def)
    next
      case (Inr um)
      note r2 = this
      let ?h = "map (\<lambda>m. (m_role m, m_content m)) (get_recent_messages e s2 (c_id conversation) 50)"
      let ?s3 = "s2\<lparr>agent_log := agent_log s2 @ [(u, ?h)]\<rparr>"
      from pl [OF p2] have p3: "P ?s3" .
      show ?thesis
      proof (cases "agent e u ?h")
        case (Inl msg)
        with g r1 st r2 p3 show ?thesis by (simp add: process_user_message_def Let_def)
      next
        case (Inr reply)
        from ps [OF p3] have "P (snd (store_message e ?s3 (c_id conversation) (ascii ''assistant'') reply))" .
        with g r1 st r2 Inr show ?thesis by (simp add: process_user_message_def Let_def)
      qed
    qed
  qed
qed

lemma clock_stamped_ticks:
  "clock_stamped e s \<Longrightarrow> messages s' = messages s \<Longrightarrow> ticks s \<le> ticks s' \<Longrightarrow> clock_stamped e s'"
  unfolding clock_stamped_def by (metis order_less_le_trans)

lemma ordered_process_user_message:
  assumes "strict_mono (clk e)" and "clock_stamped e s \<and> chronological s c"
  shows "clock_stamped e (snd (process_user_message e s u body)) \<and>
         chronological (snd (process_user_message e s u body)) c"
proof (rule process_user_message_preserves [where P = "\<lambda>s. clock_stamped e s \<and> chronological s c"])
  show "clock_stamped e s \<and> chronological s c" by (rule assms(2))
next
  fix s u assume a: "clock_stamped e s \<and> chronological s c"
  then have "clock_stamped e (snd (get_or_create_conversation e s u))"
    by (auto intro: clock_stamped_ticks simp: get_or_create_conversation_frame)
  moreover from a have "chronological (snd (get_or_create_conversation e s u)) c"
    by (simp add: chronological_def conversation_messages_def get_or_create_conversation_frame)
  ultimately show "clock_stamped e (snd (get_or_create_conversation e s u)) \<and>
      chronological (snd (get_or_create_conversation e s u)) c" ..
next
  fix s cid role content assume "clock_stamped e s \<and> chronological s c"
  with assms(1) show "clock_stamped e (snd (store_message e s cid role content)) \<and>
      chronological (snd (store_message e s cid role content)) c"
    by (simp add: clock_stamped_store_message chronological_store_message)
next
  fix s l assume "clock_stamped e s \<and> chronological s c"
  then show "clock_stamped e (s\<lparr>agent_log := l\<rparr>) \<and> chronological (s\<lparr>agent_log := l\<rparr>) c"
    by (simp add: clock_stamped_def chronological_def conversation_messages_def)
qed

subsection \<open>The outcomes of a turn\<close>

lemma process_user_message_cases:
  obtains
    (resolve_failed) x s1 where
      "get_or_create_conversation e s u = (Inl x, s1)"
      "process_user_message e s u body = (Inl x, s1)"
  | (store_failed) conv s1 x s2 where
      "get_or_create_conversation e s u = (Inr conv, s1)"
      "store_message e s1 (c_id conv) (ascii ''user'') body = (Inl x, s2)"
      "process_user_message e s u body = (Inl x, s2)"
  | (agent_failed) conv s1 um s2 msg where
      "get_or_create_conversation e s u = (Inr conv, s1)"
      "store_message e s1 (c_id conv) (ascii ''user'') body = (Inr um, s2)"
      "agent e u (history_of e s2 (c_id conv)) = Inl msg"
      "process_user_message e s u body =
         (Inl (AgentFailure msg),
          s2\<lparr>agent_log := agent_log s2 @ [(u, history_of e s2 (c_id conv))]\<rparr>)"
  | (agent_replied) conv s1 um s2 reply where
      "get_or_create_conversation e s u = (Inr conv, s1)"
      "store_message e s1 (c_id conv) (ascii ''user'') body = (Inr um, s2)"
      "agent e u (history_of e s2 (c_id conv)) = Inr reply"
      "process_user_message e s u body =
         store_message e (s2\<lparr>agent_log := agent_log s2 @ [(u, history_of e s2 (c_id conv))]\<rparr>)
           (c_id conv) (ascii ''assistant'') reply"
proof -
  obtain r1 s1 where g: "get_or_create_conversation e s u = (r1, s1)" by fastforce
  show ?thesis
  proof (cases r1)
    case (Inl x)
    with g show ?thesis by (intro resolve_failed [of x s1]) (simp_all add: process_user_message_def)
  next
    case (Inr conv)
    note r1 = this
    obtain r2 s2 where st: "store_message e s1 (c_id conv) (ascii ''user'') body = (r2, s2)"
      by fastforce
    show ?thesis
    proof (cases r2)
      case (Inl x)
      with g r1 st show ?thesis
        by (intro store_failed [of conv s1 x s2]) (simp_all add: process_user_message_def)
    next
      case (Inr um)
      note r2 = this
      show ?thesis
      proof (cases "agent e u (history_of e s2 (c_id conv))")
        case (Inl msg)
        with g r1 st r2 show ?thesis
          by (intro agent_failed [of conv s1 um s2 msg])
             (simp_all add: process_user_message_def history_of_def Let_def)
      next
        case (Inr reply)
        with g r1 st r2 show ?thesis
          by (intro agent_replied [of conv s1 um s2 reply])
             (simp_all add: process_user_message_def history_of_def Let_def)
      qed
    qed
  qed
qed



subsection \<open>Concrete runs\<close>

lemma hello_turn:
  "process_user_message ticking empty_store 7 (ascii ''Hello'') =
     (Inr \<lparr>m_id = 2, m_conversation_id = 0, m_role = (ascii ''assistant''), m_content = (ascii ''Hi there''),
           m_created_at = 4\<rparr>,
      \<lparr>conversations = [\<lparr>c_id = 0, c_user_id = 7, c_created_at = 0, c_updated_at = 5\<rparr>],
       messages =
         [\<lparr>m_id = 1, m_conversation_id = 0, m_role = (ascii ''user''), m_content = (ascii ''Hello''),
           m_created_at = 2\<rparr>,
          \<lparr>m_id = 2, m_conversation_id = 0, m_role = (ascii ''assistant''), m_content = (ascii ''Hi there''),
           m_created_at = 4\<rparr>],
       next_uuid = 3, ticks = 6, commits = 3,
       agent_log = [(7, [((ascii ''user''), (ascii ''Hello''))])]\<rparr>)"
  by (simp add: process_user_message_def get_or_create_conversation_def
      store_message_def get_recent_messages_def conversation_messages_def
      user_conversations_def order_by_desc_def first_def set_updated_at_def
      uuid4_def now_def commit_def refusal_def orphans_def ticking_def empty_store_def Let_def)

lemma after_hello_eq:
  "after_hello =
     \<lparr>conversations = [\<lparr>c_id = 0, c_user_id = 7, c_created_at = 0, c_updated_at = 5\<rparr>],
      messages =
        [\<lparr>m_id = 1, m_conversation_id = 0, m_role = (ascii ''user''), m_content = (ascii ''Hello''),
          m_created_at = 2\<rparr>,
         \<lparr>m_id = 2, m_conversation_id = 0, m_role = (ascii ''assistant''), m_content = (ascii ''Hi there''),
          m_created_at = 4\<rparr>],
      next_uuid = 3, ticks = 6, commits = 3,
      agent_log = [(7, [((ascii ''user''), (ascii ''Hello''))])]\<rparr>"
  by (simp add: after_hello_def hello_turn)

lemma again_turn:
  "store_message ticking after_hello 0 (ascii ''user'') (ascii ''again'') =
     (Inr \<lparr>m_id = 3, m_conversation_id = 0, m_role = (ascii ''user''), m_content = (ascii ''again''),
           m_created_at = 6\<rparr>,
      \<lparr>conversations = [\<lparr>c_id = 0, c_user_id = 7, c_created_at = 0, c_updated_at = 7\<rparr>],
       messages = messages after_hello @
         [\<lparr>m_id = 3, m_conversation_id = 0, m_role = (ascii ''user''), m_content = (ascii ''again''),
           m_created_at = 6\<rparr>],
       next_uuid = 4, ticks = 8, commits = 4,
       agent_log = [(7, [((ascii ''user''), (ascii ''Hello''))])]\<rparr>)"
  by (simp add: after_hello_eq store_message_def set_updated_at_def uuid4_def now_def
      commit_def refusal_def orphans_def ticking_def Let_def)

lemma clock_stamped_empty: "clock_stamped e empty_store"
  by (simp add: clock_stamped_def empty_store_def)

lemma chronological_empty: "chronological empty_store c"
  by (simp add: chronological_def conversation_messages_def empty_store_def)

lemma strict_mono_ticking: "strict_mono (clk ticking)"
  by (simp add: strict_mono_def ticking_def)

lemma after_hello_ordered: "clock_stamped ticking after_hello \<and> chronological after_hello c"
  unfolding after_hello_def
  by (rule ordered_process_user_message [OF strict_mono_ticking])
     (simp add: clock_stamped_empty chronological_empty)

lemma stalled_turn:
  "process_user_message stalled empty_store 7 (ascii ''Hello'') =
     (Inr \<lparr>m_id = 2, m_conversation_id = 0, m_role = (ascii ''assistant''), m_content = (ascii ''Hi there''),
           m_created_at = 0\<rparr>,
      \<lparr>conversations = [\<lparr>c_id = 0, c_user_id = 7, c_created_at = 0, c_updated_at = 0\<rparr>],
       messages =
         [\<lparr>m_id = 1, m_conversation_id = 0, m_role = (ascii ''user''), m_content = (ascii ''Hello''),
           m_created_at = 0\<rparr>,
          \<lparr>m_id = 2, m_conversation_id = 0, m_role = (ascii ''assistant''), m_content = (ascii ''Hi there''),
           m_created_at = 0\<rparr>],
       next_uuid = 3, ticks = 6, commits = 3,
       agent_log = [(7, [((ascii ''user''), (ascii ''Hello''))])]\<rparr>)"
  by (simp add: process_user_message_def get_or_create_conversation_def
      store_message_def get_recent_messages_def conversation_messages_def
      user_conversations_def order_by_desc_def first_def set_updated_at_def
      uuid4_def now_def commit_def refusal_def orphans_def ticking_def stalled_def empty_store_def Let_def)

lemma first_get_or_create:
  "get_or_create_conversation ticking empty_store 7 =
     (Inr \<lparr>c_id = 0, c_user_id = 7, c_created_at = 0, c_updated_at = 1\<rparr>,
      \<lparr>conversations = [\<lparr>c_id = 0, c_user_id = 7, c_created_at = 0, c_updated_at = 1\<rparr>],
       messages = [], next_uuid = 1, ticks = 2, commits = 1, agent_log = []\<rparr>)"
  by (simp add: get_or_create_conversation_def user_conversations_def order_by_desc_def
      first_def uuid4_def now_def commit_def refusal_def orphans_def ticking_def empty_store_def Let_def)

lemmas run_defs = process_user_message_def get_or_create_conversation_def
      store_message_def get_recent_messages_def conversation_messages_def
      user_conversations_def order_by_desc_def first_def set_updated_at_def
      uuid4_def now_def commit_def refusal_def orphans_def Let_def

lemma get_conversation_new_user:
  "get_conversation ticking empty_store 7 =
     (Inr \<lparr>r_id = 0, r_messages = [], r_updated_at = 1\<rparr>,
      \<lparr>conversations = [\<lparr>c_id = 0, c_user_id = 7, c_created_at = 0, c_updated_at = 1\<rparr>],
       messages = [], next_uuid = 1, ticks = 2, commits = 1, agent_log = []\<rparr>)"
  by (simp add: get_conversation_def first_get_or_create get_recent_messages_def
      conversation_messages_def order_by_desc_def)

lemma strip_Hello: "strip (ascii ''Hello'') = (ascii ''Hello'')"
  by (simp add: strip_def isspace_def ascii_def)

lemma strip_blank: "strip (ascii '' '') = []"
  by (simp add: strip_def isspace_def ascii_def)

lemma strip_no_break_space: "strip [160] = []"
  by (simp add: strip_def isspace_def)

lemma refused_user_turn:
  "process_user_message (refusing_at 1) empty_store 7 (ascii ''Hello'') =
     (Inl (StoreFailure (ascii ''connection lost'')),
      \<lparr>conversations = [\<lparr>c_id = 0, c_user_id = 7, c_created_at = 0, c_updated_at = 1\<rparr>],
       messages = [], next_uuid = 2, ticks = 4, commits = 2, agent_log = []\<rparr>)"
  by (simp add: run_defs refusing_at_def ticking_def empty_store_def)

lemma refused_assistant_turn:
  "process_user_message (refusing_at 2) empty_store 7 (ascii ''Hello'') =
     (Inl (StoreFailure (ascii ''connection lost'')),
      \<lparr>conversations = [\<lparr>c_id = 0, c_user_id = 7, c_created_at = 0, c_updated_at = 3\<rparr>],
       messages =
         [\<lparr>m_id = 1, m_conversation_id = 0, m_role = (ascii ''user''), m_content = (ascii ''Hello''),
           m_created_at = 2\<rparr>],
       next_uuid = 3, ticks = 6, commits = 3,
       agent_log = [(7, [((ascii ''user''), (ascii ''Hello''))])]\<rparr>)"
  by (simp add: run_defs refusing_at_def ticking_def empty_store_def)

lemma disconnected_turn:
  "process_user_message disconnected empty_store 7 (ascii ''Hello'') =
     (Inl (AgentFailure (ascii ''connection lost'')),
      \<lparr>conversations = [\<lparr>c_id = 0, c_user_id = 7, c_created_at = 0, c_updated_at = 3\<rparr>],
       messages =
         [\<lparr>m_id = 1, m_conversation_id = 0, m_role = (ascii ''user''), m_content = (ascii ''Hello''),
           m_created_at = 2\<rparr>],
       next_uuid = 2, ticks = 4, commits = 2,
       agent_log = [(7, [((ascii ''user''), (ascii ''Hello''))])]\<rparr>)"
  by (simp add: run_defs disconnected_def ticking_def empty_store_def)

subsection \<open>A stored message in the window; resolving a conversation\<close>

lemma filter_set_updated_at:
  "filter (\<lambda>c. c_user_id c = u) (set_updated_at cid t rows) =
     set_updated_at cid t (filter (\<lambda>c. c_user_id c = u) rows)"
  by (induction rows) (auto simp: set_updated_at_def)

lemma map_user_set_updated_at:
  "map c_user_id (set_updated_at cid t rows) = map c_user_id rows"
  by (induction rows) (auto simp: set_updated_at_def)

lemma filter_distinct_single:
  "distinct (map f xs) \<Longrightarrow> c \<in> set xs \<Longrightarrow> f c = u \<Longrightarrow> filter (\<lambda>x. f x = u) xs = [c]"
proof (induction xs)
  case Nil
  then show ?case by simp
next
  case (Cons x xs)
  show ?case
  proof (cases "x = c")
    case True
    from Cons.prems(1) have "f x \<notin> f ` set xs" by simp
    then have "\<forall>y\<in>set xs. f y \<noteq> f x" by (metis imageI)
    with True Cons.prems(3) have "filter (\<lambda>y. f y = u) xs = []"
      by (simp add: filter_empty_conv)
    with True Cons.prems(3) show ?thesis by simp
  next
    case False
    with Cons.prems have "c \<in> set xs" "f x \<noteq> u" by auto
    with Cons show ?thesis by simp
  qed
qed



lemma store_message_Inr:
  assumes "store_message e s cid role content = (Inr m, s')"
  shows "m = new_message e s cid role content"
    and "messages s' = messages s @ [m]"
    and "conversations s' = set_updated_at cid (clk e (Suc (ticks s))) (conversations s)"
    and "agent_log s' = agent_log s"
    and "ticks s < ticks s'"
    and "next_uuid s' = Suc (next_uuid s)"
    and "commits s' = Suc (commits s)"
    and "commit_fault e (commits s) = None"
proof -
  from assms have r: "Inr m = fst (store_message e s cid role content)"
    and s': "s' = snd (store_message e s cid role content)" by simp_all
  from r have m: "m = new_message e s cid role content" and "store_refusal e s cid = None"
    by (auto simp: fst_store_message split: option.splits)
  then show "m = new_message e s cid role content" and "commit_fault e (commits s) = None"
    by (simp_all add: store_refusal_None)
  from m \<open>store_refusal e s cid = None\<close> show "messages s' = messages s @ [m]"
    "conversations s' = set_updated_at cid (clk e (Suc (ticks s))) (conversations s)"
    by (simp_all add: s' messages_store_message conversations_store_message)
  show "agent_log s' = agent_log s" "ticks s < ticks s'" "next_uuid s' = Suc (next_uuid s)"
    "commits s' = Suc (commits s)"
    by (simp_all add: s' counters_store_message)
qed

lemma get_or_create_conversation_created:
  assumes "get_or_create_conversation e s u = (Inr c, s1)" "user_conversations s u = []"
  shows "c = new_conversation e s u \<and> conversations s1 = conversations s @ [c] \<and>
           next_uuid s1 = Suc (next_uuid s) \<and> ticks s1 = Suc (Suc (ticks s)) \<and>
           commits s1 = Suc (commits s)"
proof (cases "commit_fault e (commits s)")
  case None
  let ?S = "s\<lparr>conversations := conversations s @ [new_conversation e s u],
                    next_uuid := Suc (next_uuid s), ticks := Suc (Suc (ticks s)),
                    commits := Suc (commits s)\<rparr>"
  from assms(2) None have g: "get_or_create_conversation e s u = (Inr (new_conversation e s u), ?S)"
    by (simp add: get_or_create_conversation_new)
  from assms(1) [unfolded g] have a: "new_conversation e s u = c" and b: "?S = s1" by blast+
  show ?thesis unfolding a [symmetric] b [symmetric] by simp
next
  case (Some msg)
  with assms show ?thesis by (simp add: get_or_create_conversation_new)
qed

lemma get_or_create_conversation_Inr:
  assumes "get_or_create_conversation e s u = (Inr c, s1)"
  shows "c_user_id c = u" and "c \<in> set (conversations s1)"
    and "messages s1 = messages s" and "agent_log s1 = agent_log s" and "ticks s \<le> ticks s1"
    and "one_conversation_per_user s \<Longrightarrow>
           user_conversations s1 u = [c] \<and> one_conversation_per_user s1"
    and "user_conversations s u = [] \<Longrightarrow>
           c = new_conversation e s u \<and> conversations s1 = conversations s @ [c] \<and>
           next_uuid s1 = Suc (next_uuid s) \<and> ticks s1 = Suc (Suc (ticks s)) \<and>
           commits s1 = Suc (commits s)"
proof -
  from assms have s1: "s1 = snd (get_or_create_conversation e s u)" by simp
  show "messages s1 = messages s" "agent_log s1 = agent_log s" "ticks s \<le> ticks s1"
    by (simp_all add: s1 get_or_create_conversation_frame)
  have new: "c = new_conversation e s u \<and> conversations s1 = conversations s @ [c] \<and>
           next_uuid s1 = Suc (next_uuid s) \<and> ticks s1 = Suc (Suc (ticks s)) \<and>
           commits s1 = Suc (commits s)" if "user_conversations s u = []"
    using assms that by (rule get_or_create_conversation_created)
  then show "user_conversations s u = [] \<Longrightarrow>
           c = new_conversation e s u \<and> conversations s1 = conversations s @ [c] \<and>
           next_uuid s1 = Suc (next_uuid s) \<and> ticks s1 = Suc (Suc (ticks s)) \<and>
           commits s1 = Suc (commits s)" .
  have found: "s1 = s \<and> c \<in> set (user_conversations s u)" if "user_conversations s u \<noteq> []"
  proof -
    from that obtain c' where f: "first (order_by_desc (conversation_tie e) c_updated_at (user_conversations s u)) = Some c'"
      using first_order_by_desc_None [of "conversation_tie e" c_updated_at "user_conversations s u"] by auto
    with assms have "c' = c" "s1 = s" by (simp_all add: get_or_create_conversation_found)
    with f show ?thesis by (auto dest: first_order_by_desc_mem)
  qed
  show u: "c_user_id c = u"
  proof (cases "user_conversations s u = []")
    case True
    with new show ?thesis by (simp add: new_conversation_def)
  next
    case False
    with found show ?thesis by (auto simp: user_conversations_def)
  qed
  show "c \<in> set (conversations s1)"
  proof (cases "user_conversations s u = []")
    case True
    with new show ?thesis by simp
  next
    case False
    with found show ?thesis by (auto simp: user_conversations_def)
  qed
  show "user_conversations s1 u = [c] \<and> one_conversation_per_user s1"
    if one: "one_conversation_per_user s"
  proof (cases "user_conversations s u = []")
    case True
    with new have c: "c = new_conversation e s u" and cs: "conversations s1 = conversations s @ [c]"
      by simp_all
    from True have n: "u \<notin> c_user_id ` set (conversations s)"
      by (auto simp: user_conversations_def filter_empty_conv)
    from True cs u have "user_conversations s1 u = [c]"
      by (simp add: user_conversations_def)
    moreover from one cs u n have "one_conversation_per_user s1"
      by (simp add: one_conversation_per_user_def)
    ultimately show ?thesis ..
  next
    case False
    with found have s: "s1 = s" and mem: "c \<in> set (user_conversations s u)" by simp_all
    from mem have "c \<in> set (conversations s)" "c_user_id c = u"
      by (simp_all add: user_conversations_def)
    with one have "user_conversations s u = [c]"
      unfolding one_conversation_per_user_def user_conversations_def
      by (rule filter_distinct_single)
    with s one show ?thesis by simp
  qed
qed

subsection \<open>The history of a turn\<close>

lemma get_recent_messages_agent_log [simp]:
  "get_recent_messages e (s\<lparr>agent_log := l\<rparr>) cid limit = get_recent_messages e s cid limit"
  by (simp add: get_recent_messages_def conversation_messages_def)

lemma history_of_agent_log [simp]:
  "history_of e (s\<lparr>agent_log := l\<rparr>) cid = history_of e s cid"
  by (simp add: history_of_def)

lemma clock_stamped_process_user_message:
  assumes "clock_stamped e s"
  shows "clock_stamped e (snd (process_user_message e s u body))"
proof (rule process_user_message_preserves [where P = "clock_stamped e"])
  show "clock_stamped e s" by (rule assms)
next
  fix s u assume "clock_stamped e s"
  then show "clock_stamped e (snd (get_or_create_conversation e s u))"
    by (rule clock_stamped_ticks) (simp_all add: get_or_create_conversation_frame)
next
  fix s cid role content assume "clock_stamped e s"
  then show "clock_stamped e (snd (store_message e s cid role content))"
    by (rule clock_stamped_store_message)
next
  fix s l assume "clock_stamped e s"
  then show "clock_stamped e (s\<lparr>agent_log := l\<rparr>)" by (simp add: clock_stamped_def)
qed

lemma user_message_last:
  assumes strict: "strict_mono (clk e)" and stamped: "clock_stamped e s"
    and g: "get_or_create_conversation e s u = (Inr conv, s1)"
    and st: "store_message e s1 (c_id conv) (ascii ''user'') body = (Inr um, s2)"
    and limit: "0 < limit"
  shows "last (get_recent_messages e s2 (c_id conv) limit) = um"
    and "um \<in> set (get_recent_messages e s2 (c_id conv) limit)"
proof -
  note g' = get_or_create_conversation_Inr [OF g]
  note st' = store_message_Inr [OF st]
  from st'(1) have um: "m_conversation_id um = c_id conv" "m_created_at um = clk e (ticks s1)"
    by (simp_all add: new_message_def)
  from st'(2) g'(3) um(1)
  have eq: "conversation_messages s2 (c_id conv) = conversation_messages s (c_id conv) @ [um]"
    by (simp add: conversation_messages_def)
  have older: "\<forall>x\<in>set (conversation_messages s (c_id conv)). m_created_at x < m_created_at um"
  proof
    fix x assume "x \<in> set (conversation_messages s (c_id conv))"
    then have "x \<in> set (messages s)" by (simp add: conversation_messages_def)
    with stamped obtain i where i: "i < ticks s" "m_created_at x = clk e i"
      by (auto simp: clock_stamped_def)
    from i(1) g'(5) have "i < ticks s1" by simp
    with strict have "clk e i < clk e (ticks s1)" by (rule strict_monoD)
    with i(2) um(2) show "m_created_at x < m_created_at um" by simp
  qed
  from eq older limit show l: "last (get_recent_messages e s2 (c_id conv) limit) = um"
    by (rule recent_last)
  from limit eq have "get_recent_messages e s2 (c_id conv) limit \<noteq> []"
    by (metis recent_length length_0_conv min_less_iff_conj length_append_singleton
        less_numeral_extra(3) zero_less_Suc)
  with l show "um \<in> set (get_recent_messages e s2 (c_id conv) limit)"
    by (metis last_in_set)
qed

lemma turn_history:
  assumes g: "get_or_create_conversation e s u = (Inr conv, s1)"
    and st: "store_message e s1 (c_id conv) (ascii ''user'') body = (Inr um, s2)"
  shows "agent_log (snd (process_user_message e s u body)) =
           agent_log s @ [(u, history_of e s2 (c_id conv))]"
proof (cases rule: process_user_message_cases [of e s u body])
  case (resolve_failed x s1')
  with g show ?thesis by simp
next
  case (store_failed conv' s1' x s2')
  with g st show ?thesis by simp
next
  case (agent_failed conv' s1' um' s2' msg)
  with g st have "conv' = conv" "s1' = s1" "s2' = s2" by simp_all
  with agent_failed(4) store_message_Inr(4) [OF st] get_or_create_conversation_Inr(4) [OF g]
  show ?thesis by simp
next
  case (agent_replied conv' s1' um' s2' reply)
  with g st have eq: "conv' = conv" "s1' = s1" "s2' = s2" by simp_all
  have "agent_log (snd (store_message e
          (s2\<lparr>agent_log := agent_log s2 @ [(u, history_of e s2 (c_id conv))]\<rparr>)
          (c_id conv) (ascii ''assistant'') reply)) = agent_log s2 @ [(u, history_of e s2 (c_id conv))]"
    by (simp add: counters_store_message)
  with agent_replied(4) eq store_message_Inr(4) [OF st] get_or_create_conversation_Inr(4) [OF g]
  show ?thesis by simp
qed

subsection \<open>The read view after a stored user message\<close>

lemma first_singleton: "first (order_by_desc tie key [x]) = Some x"
  by (simp add: first_def order_by_desc_def)

lemma set_updated_at_singleton:
  "c_id c = cid \<Longrightarrow> set_updated_at cid t [c] = [c\<lparr>c_updated_at := t\<rparr>]"
  by (simp add: set_updated_at_def)

lemma user_conversations_store_message:
  assumes "store_message e s cid role content = (Inr m, s')"
  shows "user_conversations s' u = set_updated_at cid (clk e (Suc (ticks s))) (user_conversations s u)"
  using store_message_Inr(3) [OF assms]
  by (simp add: user_conversations_def filter_set_updated_at)




lemma one_conversation_per_user_empty: "one_conversation_per_user empty_store"
  by (simp add: one_conversation_per_user_def empty_store_def)

subsection \<open>The second turn of a new user\<close>

lemma user_conversations_agent_log [simp]:
  "user_conversations (s\<lparr>agent_log := l\<rparr>) u = user_conversations s u"
  by (simp add: user_conversations_def)

lemma store_message_accepted:
  assumes "store_refusal e s cid = None"
  shows "store_message e s cid role content =
           (Inr (new_message e s cid role content), snd (store_message e s cid role content))"
proof -
  from assms have "fst (store_message e s cid role content) = Inr (new_message e s cid role content)"
    by (simp add: fst_store_message)
  then show ?thesis by (metis prod.collapse)
qed

lemma second_turn_history:
  assumes new: "user_conversations s u = []" and fresh: "fresh_ids s"
    and first: "process_user_message e s u body = (Inr am, sa)"
    and ok: "commit_fault e (commits sa) = None"
  shows "\<exists>h. agent_log (snd (process_user_message e sa u body2)) = agent_log sa @ [(u, h)] \<and>
           length h = 3 \<and>
           (strict_mono (clk e) \<longrightarrow>
              h = [((ascii ''user''), body), ((ascii ''assistant''), m_content am), ((ascii ''user''), body2)])"
proof (cases rule: process_user_message_cases [of e s u body])
  case (resolve_failed x s1)
  with first show ?thesis by simp
next
  case (store_failed conv s1 x s2)
  with first show ?thesis by simp
next
  case (agent_failed conv s1 um s2 msg)
  with first show ?thesis by simp
next
  case (agent_replied conv s1 um s2 reply)
  let ?cid = "c_id conv"
  let ?s3 = "s2\<lparr>agent_log := agent_log s2 @ [(u, history_of e s2 ?cid)]\<rparr>"
  from agent_replied(4) first
  have st3: "store_message e ?s3 ?cid (ascii ''assistant'') reply = (Inr am, sa)" by simp
  note g = get_or_create_conversation_Inr [OF agent_replied(1)]
  note st = store_message_Inr [OF agent_replied(2)]
  note st3' = store_message_Inr [OF st3]
  from g(7) [OF new] have conv: "conv = new_conversation e s u"
    and convs: "conversations s1 = conversations s @ [conv]" by simp_all
  from conv have cid: "?cid = next_uuid s" by (simp add: new_conversation_def)
  \<comment> \<open>the messages of the conversation after the first turn\<close>
  from fresh cid have "\<forall>m\<in>set (messages s). m_conversation_id m \<noteq> ?cid"
    by (auto simp: fresh_ids_def)
  then have none: "conversation_messages s ?cid = []"
    by (simp add: conversation_messages_def filter_empty_conv)
  have um: "m_conversation_id um = ?cid" "m_created_at um = clk e (ticks s1)"
    "m_role um = (ascii ''user'')" "m_content um = body"
    by (simp_all add: st(1) new_message_def)
  have am: "m_conversation_id am = ?cid" "m_created_at am = clk e (ticks s2)"
    "m_role am = (ascii ''assistant'')" "m_content am = reply"
    by (simp_all add: st3'(1) new_message_def)
  have "messages sa = messages s @ [um, am]"
    by (simp add: st3'(2) st(2) g(3))
  with none um(1) am(1) have both: "conversation_messages sa ?cid = [um, am]"
    by (simp add: conversation_messages_def)
  \<comment> \<open>the second turn resolves the same conversation\<close>
  let ?c1 = "conv\<lparr>c_updated_at := clk e (Suc (ticks s1))\<rparr>"
  let ?c2 = "?c1\<lparr>c_updated_at := clk e (Suc (ticks ?s3))\<rparr>"
  from new convs g(1) have "user_conversations s1 u = [conv]"
    by (simp add: user_conversations_def)
  then have "user_conversations s2 u = [?c1]"
    by (simp add: user_conversations_store_message [OF agent_replied(2)] set_updated_at_singleton)
  then have "user_conversations ?s3 u = [?c1]" by simp
  then have sa_convs: "user_conversations sa u = [?c2]"
    by (simp add: user_conversations_store_message [OF st3] set_updated_at_singleton)
  then have "first (order_by_desc (conversation_tie e) c_updated_at (user_conversations sa u)) = Some ?c2"
    by (simp add: first_singleton)
  then have g2: "get_or_create_conversation e sa u = (Inr ?c2, sa)"
    by (rule get_or_create_conversation_found)
  let ?um2 = "new_message e sa (c_id ?c2) (ascii ''user'') body2"
  let ?sb = "snd (store_message e sa (c_id ?c2) (ascii ''user'') body2)"
  from sa_convs have "?c2 \<in> set (user_conversations sa u)" by simp
  then have "?c2 \<in> set (conversations sa)" by (simp add: user_conversations_def)
  with ok have "store_refusal e sa (c_id ?c2) = None"
    using store_refusal_member [of ?c2 sa e] by simp
  then have st2: "store_message e sa (c_id ?c2) (ascii ''user'') body2 = (Inr ?um2, ?sb)"
    by (rule store_message_accepted)
  have um2: "m_conversation_id ?um2 = ?cid" by (simp add: new_message_def)
  have log: "agent_log (snd (process_user_message e sa u body2)) =
      agent_log sa @ [(u, history_of e ?sb ?cid)]"
    using turn_history [OF g2 st2] by simp
  \<comment> \<open>three messages, whatever the clock says\<close>
  from store_message_Inr(2) [OF st2] both um2
  have three: "conversation_messages ?sb ?cid = [um, am, ?um2]"
    by (simp add: conversation_messages_def)
  then have len: "length (history_of e ?sb ?cid) = 3"
    by (simp add: history_of_def recent_length)
  \<comment> \<open>in storage order, when the clock strictly advances\<close>
  have "history_of e ?sb ?cid = [((ascii ''user''), body), ((ascii ''assistant''), m_content am), ((ascii ''user''), body2)]"
    if strict: "strict_mono (clk e)"
  proof -
    from st(5) st3'(5) have "ticks s1 < ticks s2" "ticks s2 < ticks sa" by simp_all
    with strict have "clk e (ticks s1) < clk e (ticks s2)" "clk e (ticks s2) < clk e (ticks sa)"
      by (simp_all add: strict_monoD)
    with three um(2) am(2)
    have "sorted_wrt (<) (map m_created_at (conversation_messages ?sb ?cid))"
      by (simp add: new_message_def)
    then have "get_recent_messages e ?sb ?cid 50 =
        drop (length (conversation_messages ?sb ?cid) - 50) (conversation_messages ?sb ?cid)"
      by (rule recent_storage_order)
    with three have "get_recent_messages e ?sb ?cid 50 = [um, am, ?um2]" by simp
    then show ?thesis by (simp add: history_of_def um am new_message_def)
  qed
  with log len show ?thesis by blast
qed

lemma resolved_eq:
  "resolved =
     \<lparr>conversations = [\<lparr>c_id = 0, c_user_id = 7, c_created_at = 0, c_updated_at = 1\<rparr>],
      messages = [], next_uuid = 1, ticks = 2, commits = 1, agent_log = []\<rparr>"
  by (simp add: resolved_def first_get_or_create)

lemma user_stored_turn:
  "store_message ticking resolved 0 (ascii ''user'') (ascii ''Hello'') =
     (Inr \<lparr>m_id = 1, m_conversation_id = 0, m_role = (ascii ''user''), m_content = (ascii ''Hello''),
           m_created_at = 2\<rparr>, user_stored)"
proof -
  have "store_refusal ticking resolved 0 = None" by (simp add: store_refusal_def ticking_def)
  then have "store_message ticking resolved 0 (ascii ''user'') (ascii ''Hello'') =
      (Inr (new_message ticking resolved 0 (ascii ''user'') (ascii ''Hello'')), user_stored)"
    unfolding user_stored_def by (rule store_message_accepted)
  then show ?thesis by (simp add: new_message_def resolved_eq ticking_def)
qed

lemma user_stored_messages:
  "messages user_stored =
     [\<lparr>m_id = 1, m_conversation_id = 0, m_role = (ascii ''user''), m_content = (ascii ''Hello''),
       m_created_at = 2\<rparr>]"
  by (simp add: user_stored_def messages_store_message store_refusal_def new_message_def
      resolved_eq ticking_def)

lemma fresh_ids_empty: "fresh_ids empty_store"
  by (simp add: fresh_ids_def empty_store_def)

subsection \<open>Invariants of the reachable stores\<close>

text \<open>
  The properties of a store that the claims below assume hold in every store the
  endpoints can reach from the empty one, whatever the clock, the store's faults and the
  agent do; with a strictly increasing clock, creation times strictly increase in every
  conversation of a reachable store.
\<close>

lemma c_id_set_updated_at: "c_id ` set (set_updated_at cid t rows) = c_id ` set rows"
  by (induction rows) (auto simp: set_updated_at_def)

lemma c_id_store_message:
  "c_id ` set (conversations (snd (store_message e s cid role content))) =
     c_id ` set (conversations s)"
  by (simp add: conversations_store_message c_id_set_updated_at split: option.splits)

lemma one_conversation_per_user_store_message:
  "one_conversation_per_user s \<Longrightarrow>
     one_conversation_per_user (snd (store_message e s cid role content))"
  by (simp add: one_conversation_per_user_def conversations_store_message
      map_user_set_updated_at split: option.splits)

lemma fresh_ids_store_message:
  assumes "fresh_ids s" and "cid \<in> c_id ` set (conversations s)"
  shows "fresh_ids (snd (store_message e s cid role content))"
proof -
  let ?s' = "snd (store_message e s cid role content)"
  from assms have cid: "cid < next_uuid s" by (auto simp: fresh_ids_def)
  have n: "next_uuid ?s' = Suc (next_uuid s)" by (simp add: counters_store_message)
  have "c_id c < next_uuid ?s'" if "c \<in> set (conversations ?s')" for c
  proof -
    from that have "c_id c \<in> c_id ` set (conversations s)"
      using c_id_store_message [of e s cid role content] by blast
    with assms(1) n show ?thesis by (auto simp: fresh_ids_def)
  qed
  moreover have "m_conversation_id m < next_uuid ?s'" if "m \<in> set (messages ?s')" for m
  proof (cases "m \<in> set (messages s)")
    case True
    with assms(1) n show ?thesis by (auto simp: fresh_ids_def)
  next
    case False
    with that have "m = new_message e s cid role content"
      by (auto simp: messages_store_message split: option.splits)
    with cid n show ?thesis by (simp add: new_message_def)
  qed
  ultimately show ?thesis by (simp add: fresh_ids_def)
qed

lemma get_or_create_conversation_rows:
  "conversations (snd (get_or_create_conversation e s u)) = conversations s \<and>
     next_uuid s \<le> next_uuid (snd (get_or_create_conversation e s u)) \<or>
   user_conversations s u = [] \<and>
     conversations (snd (get_or_create_conversation e s u)) =
       conversations s @ [new_conversation e s u] \<and>
     next_uuid (snd (get_or_create_conversation e s u)) = Suc (next_uuid s)"
proof (cases "first (order_by_desc (conversation_tie e) c_updated_at (user_conversations s u))")
  case (Some c)
  then show ?thesis by (simp add: get_or_create_conversation_found)
next
  case None
  then have "user_conversations s u = []" by (simp add: first_order_by_desc_None)
  then show ?thesis
    by (cases "commit_fault e (commits s)") (simp_all add: get_or_create_conversation_new)
qed

lemma invariants_get_or_create_conversation:
  assumes "one_conversation_per_user s \<and> fresh_ids s"
  shows "one_conversation_per_user (snd (get_or_create_conversation e s u)) \<and>
         fresh_ids (snd (get_or_create_conversation e s u))"
proof -
  let ?s' = "snd (get_or_create_conversation e s u)"
  have m: "messages ?s' = messages s" by (simp add: get_or_create_conversation_frame)
  from get_or_create_conversation_rows [of e s u] show ?thesis
  proof
    assume "conversations ?s' = conversations s \<and> next_uuid s \<le> next_uuid ?s'"
    with assms m show ?thesis
      by (fastforce simp: one_conversation_per_user_def fresh_ids_def)
  next
    assume a: "user_conversations s u = [] \<and>
      conversations ?s' = conversations s @ [new_conversation e s u] \<and>
      next_uuid ?s' = Suc (next_uuid s)"
    then have "u \<notin> c_user_id ` set (conversations s)"
      by (auto simp: user_conversations_def filter_empty_conv)
    with assms a have "one_conversation_per_user ?s'"
      by (simp add: one_conversation_per_user_def new_conversation_def)
    moreover from assms a m have "fresh_ids ?s'"
      by (fastforce simp: fresh_ids_def new_conversation_def)
    ultimately show ?thesis ..
  qed
qed

lemma invariants_process_user_message:
  assumes inv: "one_conversation_per_user s \<and> fresh_ids s"
  shows "one_conversation_per_user (snd (process_user_message e s u body)) \<and>
         fresh_ids (snd (process_user_message e s u body))"
proof (cases rule: process_user_message_cases [of e s u body])
  case (resolve_failed x s1)
  with invariants_get_or_create_conversation [OF inv, of e u] show ?thesis by simp
next
  case (store_failed conv s1 x s2)
  from invariants_get_or_create_conversation [OF inv, of e u] store_failed(1)
  have i1: "one_conversation_per_user s1" "fresh_ids s1" by simp_all
  from get_or_create_conversation_Inr(2) [OF store_failed(1)]
  have "c_id conv \<in> c_id ` set (conversations s1)" by simp
  with i1 one_conversation_per_user_store_message [of s1 e "c_id conv" "(ascii ''user'')" body]
    fresh_ids_store_message [of s1 "c_id conv" e "(ascii ''user'')" body] store_failed(2,3)
  show ?thesis by simp
next
  case (agent_failed conv s1 um s2 msg)
  from invariants_get_or_create_conversation [OF inv, of e u] agent_failed(1)
  have i1: "one_conversation_per_user s1" "fresh_ids s1" by simp_all
  from get_or_create_conversation_Inr(2) [OF agent_failed(1)]
  have "c_id conv \<in> c_id ` set (conversations s1)" by simp
  with i1 one_conversation_per_user_store_message [of s1 e "c_id conv" "(ascii ''user'')" body]
    fresh_ids_store_message [of s1 "c_id conv" e "(ascii ''user'')" body] agent_failed(2)
  have "one_conversation_per_user s2" "fresh_ids s2" by simp_all
  with agent_failed(4) show ?thesis
    by (simp add: one_conversation_per_user_def fresh_ids_def)
next
  case (agent_replied conv s1 um s2 reply)
  let ?s3 = "s2\<lparr>agent_log := agent_log s2 @ [(u, history_of e s2 (c_id conv))]\<rparr>"
  from invariants_get_or_create_conversation [OF inv, of e u] agent_replied(1)
  have i1: "one_conversation_per_user s1" "fresh_ids s1" by simp_all
  from get_or_create_conversation_Inr(2) [OF agent_replied(1)]
  have mem: "c_id conv \<in> c_id ` set (conversations s1)" by simp
  with i1 one_conversation_per_user_store_message [of s1 e "c_id conv" "(ascii ''user'')" body]
    fresh_ids_store_message [of s1 "c_id conv" e "(ascii ''user'')" body] agent_replied(2)
  have "one_conversation_per_user s2" "fresh_ids s2" by simp_all
  then have i3: "one_conversation_per_user ?s3" "fresh_ids ?s3"
    by (simp_all add: one_conversation_per_user_def fresh_ids_def)
  from mem c_id_store_message [of e s1 "c_id conv" "(ascii ''user'')" body] agent_replied(2)
  have "c_id conv \<in> c_id ` set (conversations ?s3)" by simp
  with i3 one_conversation_per_user_store_message [of ?s3 e "c_id conv" "(ascii ''assistant'')" reply]
    fresh_ids_store_message [of ?s3 "c_id conv" e "(ascii ''assistant'')" reply] agent_replied(4)
  show ?thesis by simp
qed

lemma reachable_invariants:
  assumes "reachable e s"
  shows "clock_stamped e s \<and> one_conversation_per_user s \<and> fresh_ids s"
  using assms
proof (induction rule: reachable.induct)
  case start
  show ?case
    by (simp add: clock_stamped_empty one_conversation_per_user_empty fresh_ids_empty)
next
  case (turn s u body)
  show ?case
  proof (cases "strip body = []")
    case True
    with turn.IH show ?thesis by (simp add: chat_def)
  next
    case False
    then have "snd (chat e s u body) = snd (process_user_message e s u body)"
      by (simp add: chat_def split: prod.splits sum.splits)
    with turn.IH clock_stamped_process_user_message [of e s u body]
      invariants_process_user_message [of s e u body]
    show ?thesis by simp
  qed
next
  case (read s u)
  have "snd (get_conversation e s u) = snd (get_or_create_conversation e s u)"
    by (simp add: get_conversation_def split: prod.splits sum.splits)
  moreover from read.IH have "clock_stamped e (snd (get_or_create_conversation e s u))"
    by (auto intro: clock_stamped_ticks simp: get_or_create_conversation_frame)
  ultimately show ?case
    using read.IH invariants_get_or_create_conversation [of s e u] by simp
qed

lemma reachable_chronological:
  assumes "reachable e s" and "strict_mono (clk e)"
  shows "chronological s c"
  using assms(1)
proof (induction rule: reachable.induct)
  case start
  show ?case by (rule chronological_empty)
next
  case (turn s u body)
  show ?case
  proof (cases "strip body = []")
    case True
    with turn.IH show ?thesis by (simp add: chat_def)
  next
    case False
    then have "snd (chat e s u body) = snd (process_user_message e s u body)"
      by (simp add: chat_def split: prod.splits sum.splits)
    moreover from turn.hyps have "clock_stamped e s" by (simp add: reachable_invariants)
    ultimately show ?thesis
      using turn.IH ordered_process_user_message [OF assms(2), of s c u body] by simp
  qed
next
  case (read s u)
  have "snd (get_conversation e s u) = snd (get_or_create_conversation e s u)"
    by (simp add: get_conversation_def split: prod.splits sum.splits)
  with read.IH show ?case
    by (simp add: chronological_def conversation_messages_def get_or_create_conversation_frame)
qed

lemma reachable_after_hello: "reachable ticking after_hello"
proof -
  have "snd (chat ticking empty_store 7 (ascii ''Hello'')) = after_hello"
    by (simp add: chat_def strip_Hello hello_turn after_hello_eq)
  with reachable.turn [OF reachable.start, of ticking 7 "(ascii ''Hello'')"] show ?thesis by simp
qed

lemma user_message_included:
  assumes g: "get_or_create_conversation e s u = (Inr conv, s1)"
    and st: "store_message e s1 (c_id conv) (ascii ''user'') body = (Inr um, s2)"
    and few: "length (conversation_messages s (c_id conv)) < 50"
  shows "um \<in> set (get_recent_messages e s2 (c_id conv) 50)"
proof -
  note g' = get_or_create_conversation_Inr [OF g]
  note st' = store_message_Inr [OF st]
  from st'(1) have "m_conversation_id um = c_id conv" by (simp add: new_message_def)
  with st'(2) g'(3)
  have eq: "conversation_messages s2 (c_id conv) = conversation_messages s (c_id conv) @ [um]"
    by (simp add: conversation_messages_def)
  with few have "length (conversation_messages s2 (c_id conv)) \<le> 50" by simp
  then have "mset (get_recent_messages e s2 (c_id conv) 50) =
      mset (conversation_messages s2 (c_id conv))" by (rule recent_all)
  then have "set (get_recent_messages e s2 (c_id conv) 50) =
      set (conversation_messages s2 (c_id conv))" by (rule mset_eq_setD)
  with eq show ?thesis by simp
qed

lemma rewound_first_turn:
  "process_user_message rewound empty_store 7 (ascii ''Hello'') =
     (Inr \<lparr>m_id = 2, m_conversation_id = 0, m_role = (ascii ''assistant''), m_content = (ascii ''Hi there''),
           m_created_at = 104\<rparr>,
      \<lparr>conversations = [\<lparr>c_id = 0, c_user_id = 7, c_created_at = 100, c_updated_at = 105\<rparr>],
       messages =
         [\<lparr>m_id = 1, m_conversation_id = 0, m_role = (ascii ''user''), m_content = (ascii ''Hello''),
           m_created_at = 102\<rparr>,
          \<lparr>m_id = 2, m_conversation_id = 0, m_role = (ascii ''assistant''), m_content = (ascii ''Hi there''),
           m_created_at = 104\<rparr>],
       next_uuid = 3, ticks = 6, commits = 3,
       agent_log = [(7, [((ascii ''user''), (ascii ''Hello''))])]\<rparr>)"
  by (simp add: run_defs rewound_def ticking_def empty_store_def)

lemma after_hello_rewound_eq:
  "after_hello_rewound =
      \<lparr>conversations = [\<lparr>c_id = 0, c_user_id = 7, c_created_at = 100, c_updated_at = 105\<rparr>],
       messages =
         [\<lparr>m_id = 1, m_conversation_id = 0, m_role = (ascii ''user''), m_content = (ascii ''Hello''),
           m_created_at = 102\<rparr>,
          \<lparr>m_id = 2, m_conversation_id = 0, m_role = (ascii ''assistant''), m_content = (ascii ''Hi there''),
           m_created_at = 104\<rparr>],
       next_uuid = 3, ticks = 6, commits = 3,
       agent_log = [(7, [((ascii ''user''), (ascii ''Hello''))])]\<rparr>"
  by (simp add: after_hello_rewound_def rewound_first_turn)

lemma rewound_second_turn:
  "agent_log (snd (process_user_message rewound after_hello_rewound 7 (ascii ''What is next?''))) =
     [(7, [((ascii ''user''), (ascii ''Hello''))]),
      (7, [((ascii ''user''), (ascii ''What is next?'')), ((ascii ''user''), (ascii ''Hello'')), ((ascii ''assistant''), (ascii ''Hi there''))])]"
  by (simp add: after_hello_rewound_eq run_defs rewound_def ticking_def)

subsection \<open>A crowded conversation and a clock set back\<close>








section \<open>Claims\<close>

text \<open>
  C4. \<open>get_recent_messages\<close> returns the conversation's messages in ascending order of
  creation time. Its length is the smaller of the limit and the number of messages the
  conversation holds: all of them when there are at most \<open>limit\<close>, exactly \<open>limit\<close> when
  there are \<open>limit + k\<close>. The messages returned are the most recent: each message of the
  conversation that is left out is no newer than any message returned. Where creation
  times strictly increase in storage order, the result is the last \<open>limit\<close> stored
  messages in storage order. (Which of several messages with the same creation time are
  returned, and in which order, is the store's choice; every statement here holds
  whatever it is.)
\<close>

theorem get_recent_messages_window:
  "sorted (map m_created_at (get_recent_messages e s cid limit)) \<and>
   length (get_recent_messages e s cid limit) = min limit (length (conversation_messages s cid)) \<and>
   (length (conversation_messages s cid) \<le> limit \<longrightarrow>
      mset (get_recent_messages e s cid limit) = mset (conversation_messages s cid)) \<and>
   (length (conversation_messages s cid) = limit + k \<longrightarrow>
      length (get_recent_messages e s cid limit) = limit) \<and>
   mset (get_recent_messages e s cid limit) \<subseteq># mset (conversation_messages s cid) \<and>
   (\<forall>x\<in>#mset (conversation_messages s cid) - mset (get_recent_messages e s cid limit).
      \<forall>y\<in>set (get_recent_messages e s cid limit). m_created_at x \<le> m_created_at y) \<and>
   (sorted_wrt (<) (map m_created_at (conversation_messages s cid)) \<longrightarrow>
      get_recent_messages e s cid limit =
        drop (length (conversation_messages s cid) - limit) (conversation_messages s cid))"
proof -
  have sub: "mset (get_recent_messages e s cid limit) \<subseteq># mset (conversation_messages s cid)"
  proof -
    have "mset (drop (length (conversation_messages s cid) - limit)
                  (sort_key m_created_at (scanned e s cid)))
            \<subseteq># mset (sort_key m_created_at (scanned e s cid))"
      by (metis append_take_drop_id mset_append mset_subset_eq_add_right)
    then show ?thesis by (simp add: get_recent_messages_drop)
  qed
  show ?thesis
    using recent_sorted recent_length recent_all recent_most_recent recent_storage_order sub
    by (intro conjI impI ballI) simp_all
qed

theorem get_recent_messages_window_witness:
  "length (conversation_messages after_hello 0) = 1 + 1 \<and>
   length (get_recent_messages ticking after_hello 0 1) = 1 \<and>
   get_recent_messages ticking after_hello 0 1 = drop 1 (conversation_messages after_hello 0) \<and>
   sorted_wrt (<) (map m_created_at (conversation_messages after_hello 0)) \<and>
   length (conversation_messages after_hello 0) \<le> 2 \<and>
   mset (get_recent_messages ticking after_hello 0 2) = mset (conversation_messages after_hello 0) \<and>
   get_recent_messages ticking after_hello 0 1 =
     [\<lparr>m_id = 2, m_conversation_id = 0, m_role = (ascii ''assistant''), m_content = (ascii ''Hi there''),
       m_created_at = 4\<rparr>] \<and>
   mset (conversation_messages after_hello 0) - mset (get_recent_messages ticking after_hello 0 1) =
     {#\<lparr>m_id = 1, m_conversation_id = 0, m_role = (ascii ''user''), m_content = (ascii ''Hello''),
        m_created_at = 2\<rparr>#}"
  using get_recent_messages_window [of ticking after_hello 0 1 1]
    get_recent_messages_window [of ticking after_hello 0 2 0]
  by (simp add: after_hello_eq conversation_messages_def)

text \<open>
  C10, as amended. When \<open>store_message\<close> is called with a conversation identifier that no
  Conversation row has, the code raises nothing of its own and skips the bump: the clock
  is read once (for the message) and not a second time for an \<open>updated_at\<close>, and no
  conversation row changes. Whether the message is persisted is the store's decision.
  Where the store does not enforce the foreign key and accepts the commit, the message is
  stored and returned, an orphan. Where the store enforces the foreign key, the commit is
  refused: the call raises the store's exception and no message is stored. A commit
  refused for another reason raises in the same way.
\<close>

theorem store_message_orphan:
  assumes "find (\<lambda>c. c_id c = cid) (conversations s) = None"
  shows "ticks (snd (store_message e s cid role content)) = Suc (ticks s) \<and>
         conversations (snd (store_message e s cid role content)) = conversations s \<and>
         (commit_fault e (commits s) = None \<longrightarrow> foreign_key e = None \<longrightarrow>
            fst (store_message e s cid role content) = Inr (new_message e s cid role content) \<and>
            messages (snd (store_message e s cid role content)) =
              messages s @ [new_message e s cid role content]) \<and>
         (\<forall>msg. commit_fault e (commits s) = None \<longrightarrow> foreign_key e = Some msg \<longrightarrow>
            fst (store_message e s cid role content) = Inl (StoreFailure msg) \<and>
            messages (snd (store_message e s cid role content)) = messages s) \<and>
         (\<forall>msg. commit_fault e (commits s) = Some msg \<longrightarrow>
            fst (store_message e s cid role content) = Inl (StoreFailure msg) \<and>
            messages (snd (store_message e s cid role content)) = messages s)"
  using assms
  by (simp add: fst_store_message messages_store_message conversations_store_message
      counters_store_message set_updated_at_absent store_refusal_def split: option.splits)

theorem store_message_orphan_witness:
  "find (\<lambda>c. c_id c = 9) (conversations after_hello) = None \<and>
   commit_fault ticking (commits after_hello) = None \<and> foreign_key ticking = None \<and>
   store_message ticking after_hello 9 (ascii ''user'') (ascii ''lost'') =
     (Inr \<lparr>m_id = 3, m_conversation_id = 9, m_role = (ascii ''user''), m_content = (ascii ''lost''),
           m_created_at = 6\<rparr>,
      after_hello\<lparr>messages := messages after_hello @
            [\<lparr>m_id = 3, m_conversation_id = 9, m_role = (ascii ''user''), m_content = (ascii ''lost''),
              m_created_at = 6\<rparr>],
         next_uuid := 4, ticks := 7, commits := 4\<rparr>) \<and>
   commit_fault enforcing (commits after_hello) = None \<and>
   foreign_key enforcing = Some (ascii ''FOREIGN KEY constraint failed'') \<and>
   fst (store_message enforcing after_hello 9 (ascii ''user'') (ascii ''lost'')) =
     Inl (StoreFailure (ascii ''FOREIGN KEY constraint failed'')) \<and>
   messages (snd (store_message enforcing after_hello 9 (ascii ''user'') (ascii ''lost''))) =
     messages after_hello \<and>
   ticks (snd (store_message enforcing after_hello 9 (ascii ''user'') (ascii ''lost''))) =
     Suc (ticks after_hello)"
proof -
  have h1: "find (\<lambda>c. c_id c = 9) (conversations after_hello) = None"
    by (simp add: after_hello_eq)
  have h2: "commit_fault ticking (commits after_hello) = None"
    by (simp add: ticking_def)
  have h3: "foreign_key ticking = None" by (simp add: ticking_def)
  have h4: "commit_fault enforcing (commits after_hello) = None"
    by (simp add: enforcing_def ticking_def)
  have h5: "foreign_key enforcing = Some (ascii ''FOREIGN KEY constraint failed'')"
    by (simp add: enforcing_def)
  have eq: "store_message ticking after_hello 9 (ascii ''user'') (ascii ''lost'') =
     (Inr \<lparr>m_id = 3, m_conversation_id = 9, m_role = (ascii ''user''), m_content = (ascii ''lost''),
           m_created_at = 6\<rparr>,
      after_hello\<lparr>messages := messages after_hello @
            [\<lparr>m_id = 3, m_conversation_id = 9, m_role = (ascii ''user''), m_content = (ascii ''lost''),
              m_created_at = 6\<rparr>],
         next_uuid := 4, ticks := 7, commits := 4\<rparr>)"
    by (simp add: after_hello_eq store_message_def uuid4_def now_def commit_def refusal_def
        orphans_def ticking_def Let_def)
  note a = store_message_orphan [OF h1, of ticking "(ascii ''user'')" "(ascii ''lost'')"]
  note b = store_message_orphan [OF h1, of enforcing "(ascii ''user'')" "(ascii ''lost'')"]
  from a h2 h3 have "fst (store_message ticking after_hello 9 (ascii ''user'') (ascii ''lost'')) =
      Inr (new_message ticking after_hello 9 (ascii ''user'') (ascii ''lost''))" by blast
  from b h4 h5
  have r: "fst (store_message enforcing after_hello 9 (ascii ''user'') (ascii ''lost'')) =
      Inl (StoreFailure (ascii ''FOREIGN KEY constraint failed''))"
    and m: "messages (snd (store_message enforcing after_hello 9 (ascii ''user'') (ascii ''lost''))) =
      messages after_hello"
    by blast+
  from b
  have k: "ticks (snd (store_message enforcing after_hello 9 (ascii ''user'') (ascii ''lost''))) =
      Suc (ticks after_hello)" by blast
  show ?thesis by (intro conjI h1 h2 h3 eq h4 h5 r m k)
qed

text \<open>
  C10 as stated fails where the store enforces the foreign key: the commit of the orphan
  message is refused, the call raises, and the store holds the messages it held before.
\<close>

theorem orphan_message_refused:
  "find (\<lambda>c. c_id c = 9) (conversations after_hello) = None \<and>
   fst (store_message enforcing after_hello 9 (ascii ''user'') (ascii ''lost'')) =
     Inl (StoreFailure (ascii ''FOREIGN KEY constraint failed'')) \<and>
   messages (snd (store_message enforcing after_hello 9 (ascii ''user'') (ascii ''lost''))) =
     messages after_hello \<and>
   conversations (snd (store_message enforcing after_hello 9 (ascii ''user'') (ascii ''lost''))) =
     conversations after_hello"
  by (simp add: after_hello_eq store_message_def uuid4_def now_def commit_def refusal_def
      orphans_def enforcing_def ticking_def Let_def)



text \<open>
  C2, as amended. For a call of \<open>store_message\<close> on an existing conversation: when it
  returns, the message carries the clock reading taken when it was built, the message is
  the one row added, and the conversation's \<open>updated_at\<close> is the next clock reading, taken
  after the message was built; when it raises, neither the message nor the new
  \<open>updated_at\<close> is in the store. Both changes go through the one commit.
\<close>

theorem store_message_bump:
  assumes "find (\<lambda>c. c_id c = cid) (conversations s) = Some c"
  shows "case store_message e s cid role content of
           (Inr m, s') \<Rightarrow>
             m_created_at m = clk e (ticks s) \<and>
             messages s' = messages s @ [m] \<and>
             conversations s' = set_updated_at cid (clk e (Suc (ticks s))) (conversations s) \<and>
             find (\<lambda>c. c_id c = cid) (conversations s') =
               Some (c\<lparr>c_updated_at := clk e (Suc (ticks s))\<rparr>)
         | (Inl x, s') \<Rightarrow> messages s' = messages s \<and> conversations s' = conversations s"
proof -
  obtain r s' where eq: "store_message e s cid role content = (r, s')" by fastforce
  then have "r = fst (store_message e s cid role content)"
    "s' = snd (store_message e s cid role content)" by simp_all
  with assms have "case (r, s') of
           (Inr m, s') \<Rightarrow>
             m_created_at m = clk e (ticks s) \<and>
             messages s' = messages s @ [m] \<and>
             conversations s' = set_updated_at cid (clk e (Suc (ticks s))) (conversations s) \<and>
             find (\<lambda>c. c_id c = cid) (conversations s') =
               Some (c\<lparr>c_updated_at := clk e (Suc (ticks s))\<rparr>)
         | (Inl x, s') \<Rightarrow> messages s' = messages s \<and> conversations s' = conversations s"
    by (simp add: fst_store_message messages_store_message conversations_store_message
        find_set_updated_at new_message_def split: option.splits)
  with eq show ?thesis by simp
qed

theorem store_message_bump_witness:
  "find (\<lambda>c. c_id c = 0) (conversations after_hello) =
     Some \<lparr>c_id = 0, c_user_id = 7, c_created_at = 0, c_updated_at = 5\<rparr> \<and>
   (case store_message ticking after_hello 0 (ascii ''user'') (ascii ''again'') of
      (Inr m, s') \<Rightarrow>
        m_created_at m = clk ticking (ticks after_hello) \<and>
        messages s' = messages after_hello @ [m] \<and>
        conversations s' =
          set_updated_at 0 (clk ticking (Suc (ticks after_hello))) (conversations after_hello) \<and>
        find (\<lambda>c. c_id c = 0) (conversations s') =
          Some (\<lparr>c_id = 0, c_user_id = 7, c_created_at = 0, c_updated_at = 5\<rparr>
                  \<lparr>c_updated_at := clk ticking (Suc (ticks after_hello))\<rparr>)
    | (Inl x, s') \<Rightarrow>
        messages s' = messages after_hello \<and> conversations s' = conversations after_hello) \<and>
   (case store_message refusing after_hello 0 (ascii ''user'') (ascii ''again'') of
      (Inr m, s') \<Rightarrow>
        m_created_at m = clk refusing (ticks after_hello) \<and>
        messages s' = messages after_hello @ [m] \<and>
        conversations s' =
          set_updated_at 0 (clk refusing (Suc (ticks after_hello))) (conversations after_hello) \<and>
        find (\<lambda>c. c_id c = 0) (conversations s') =
          Some (\<lparr>c_id = 0, c_user_id = 7, c_created_at = 0, c_updated_at = 5\<rparr>
                  \<lparr>c_updated_at := clk refusing (Suc (ticks after_hello))\<rparr>)
    | (Inl x, s') \<Rightarrow>
        messages s' = messages after_hello \<and> conversations s' = conversations after_hello) \<and>
   fst (store_message ticking after_hello 0 (ascii ''user'') (ascii ''again'')) =
     Inr \<lparr>m_id = 3, m_conversation_id = 0, m_role = (ascii ''user''), m_content = (ascii ''again''),
           m_created_at = 6\<rparr> \<and>
   fst (store_message refusing after_hello 0 (ascii ''user'') (ascii ''again'')) =
     Inl (StoreFailure (ascii ''connection lost''))"
proof -
  have h: "find (\<lambda>c. c_id c = 0) (conversations after_hello) =
     Some \<lparr>c_id = 0, c_user_id = 7, c_created_at = 0, c_updated_at = 5\<rparr>"
    by (simp add: after_hello_eq)
  note a = store_message_bump [OF h, of ticking "(ascii ''user'')" "(ascii ''again'')"]
  note b = store_message_bump [OF h, of refusing "(ascii ''user'')" "(ascii ''again'')"]
  have c: "fst (store_message ticking after_hello 0 (ascii ''user'') (ascii ''again'')) =
     Inr \<lparr>m_id = 3, m_conversation_id = 0, m_role = (ascii ''user''), m_content = (ascii ''again''),
           m_created_at = 6\<rparr>"
    by (simp add: again_turn)
  have d: "fst (store_message refusing after_hello 0 (ascii ''user'') (ascii ''again'')) =
      Inl (StoreFailure (ascii ''connection lost''))"
    by (simp add: fst_store_message store_refusal_def refusing_def)
  show ?thesis by (intro conjI h a b c d)
qed

text \<open>
  C2 as stated fails: with a clock that advances between two readings, the message is
  created at 6 and the conversation's \<open>updated_at\<close> becomes 7.
\<close>

theorem updated_at_is_a_later_reading:
  "find (\<lambda>c. c_id c = 0) (conversations after_hello) =
     Some \<lparr>c_id = 0, c_user_id = 7, c_created_at = 0, c_updated_at = 5\<rparr> \<and>
   fst (store_message ticking after_hello 0 (ascii ''user'') (ascii ''again'')) =
     Inr \<lparr>m_id = 3, m_conversation_id = 0, m_role = (ascii ''user''), m_content = (ascii ''again''),
           m_created_at = 6\<rparr> \<and>
   conversations (snd (store_message ticking after_hello 0 (ascii ''user'') (ascii ''again''))) =
     [\<lparr>c_id = 0, c_user_id = 7, c_created_at = 0, c_updated_at = 7\<rparr>]"
  by (simp add: again_turn) (simp add: after_hello_eq)

text \<open>
  C3, as amended. When every clock reading is strictly greater than the ones before it,
  creation times strictly increase in storage order within every conversation: this holds
  in every store the endpoints can reach, and a store whose creation times are earlier
  clock readings and strictly increase in a conversation keeps both properties through
  \<open>store_message\<close> and through a whole turn. The code has no ordering of its own beside
  the clock.
\<close>

theorem creation_times_increase:
  assumes "strict_mono (clk e)"
  shows "(reachable e s \<longrightarrow> chronological s c) \<and>
         (clock_stamped e s \<and> chronological s c \<longrightarrow>
            chronological (snd (store_message e s cid role content)) c \<and>
            clock_stamped e (snd (store_message e s cid role content)) \<and>
            chronological (snd (process_user_message e s u body)) c \<and>
            clock_stamped e (snd (process_user_message e s u body)))"
proof (intro conjI impI)
  assume "reachable e s"
  then show "chronological s c" using assms by (rule reachable_chronological)
next
  assume a: "clock_stamped e s \<and> chronological s c"
  with assms show "chronological (snd (store_message e s cid role content)) c"
    by (simp add: chronological_store_message)
  from a show "clock_stamped e (snd (store_message e s cid role content))"
    by (simp add: clock_stamped_store_message)
  from ordered_process_user_message [OF assms a, of u body]
  show "chronological (snd (process_user_message e s u body)) c"
    "clock_stamped e (snd (process_user_message e s u body))" by simp_all
qed

theorem creation_times_increase_witness:
  "strict_mono (clk ticking) \<and> reachable ticking after_hello \<and>
   clock_stamped ticking after_hello \<and> chronological after_hello 0 \<and>
   chronological (snd (store_message ticking after_hello 0 (ascii ''user'') (ascii ''again''))) 0 \<and>
   clock_stamped ticking (snd (store_message ticking after_hello 0 (ascii ''user'') (ascii ''again''))) \<and>
   chronological (snd (process_user_message ticking after_hello 7 (ascii ''again''))) 0 \<and>
   clock_stamped ticking (snd (process_user_message ticking after_hello 7 (ascii ''again''))) \<and>
   map m_created_at (conversation_messages after_hello 0) = [2, 4] \<and>
   map m_created_at
     (conversation_messages (snd (store_message ticking after_hello 0 (ascii ''user'') (ascii ''again''))) 0) =
     [2, 4, 6]"
proof -
  have h1: "strict_mono (clk ticking)" by (rule strict_mono_ticking)
  have h2: "reachable ticking after_hello" by (rule reachable_after_hello)
  have h3: "clock_stamped ticking after_hello" by (simp add: after_hello_ordered)
  note t = creation_times_increase [OF h1, of after_hello 0 0 "(ascii ''user'')" "(ascii ''again'')" 7 "(ascii ''again'')"]
  from t h2 have c: "chronological after_hello 0" by blast
  from t h3 c have d: "chronological (snd (store_message ticking after_hello 0 (ascii ''user'') (ascii ''again''))) 0 \<and>
   clock_stamped ticking (snd (store_message ticking after_hello 0 (ascii ''user'') (ascii ''again''))) \<and>
   chronological (snd (process_user_message ticking after_hello 7 (ascii ''again''))) 0 \<and>
   clock_stamped ticking (snd (process_user_message ticking after_hello 7 (ascii ''again'')))"
    by blast
  have v: "map m_created_at (conversation_messages after_hello 0) = [2, 4]"
    by (simp add: after_hello_eq conversation_messages_def)
  have w: "map m_created_at
     (conversation_messages (snd (store_message ticking after_hello 0 (ascii ''user'') (ascii ''again''))) 0) =
     [2, 4, 6]"
    by (simp add: again_turn conversation_messages_def) (simp add: after_hello_eq)
  from h1 h2 h3 c d v w show ?thesis by blast
qed

text \<open>
  C3 as stated fails: when the clock returns the same reading twice, the user message and
  the assistant message of one turn get the same creation time.
\<close>

theorem equal_creation_times_on_collision:
  "map m_created_at
     (conversation_messages (snd (process_user_message stalled empty_store 7 (ascii ''Hello''))) 0) =
     [0, 0] \<and>
   \<not> chronological (snd (process_user_message stalled empty_store 7 (ascii ''Hello''))) 0"
  by (simp add: stalled_turn conversation_messages_def chronological_def)

text \<open>
  C6. When \<open>get_or_create_conversation\<close> has returned a conversation, calling it again
  for the same user in the store it left returns the same conversation (the same
  identifier) and leaves the store as it is: no Conversation row is added.
\<close>

theorem get_or_create_conversation_twice:
  assumes "get_or_create_conversation e s u = (Inr c, s1)"
  shows "get_or_create_conversation e s1 u = (Inr c, s1)"
proof (cases "first (order_by_desc (conversation_tie e) c_updated_at (user_conversations s u))")
  case (Some c')
  with assms show ?thesis by (simp add: get_or_create_conversation_def)
next
  case None
  then have none: "user_conversations s u = []" by (simp add: first_order_by_desc_None)
  with assms have c: "c = new_conversation e s u"
    and s1: "conversations s1 = conversations s @ [c]"
    by (auto simp: get_or_create_conversation_new split: option.splits)
  from none s1 c have "user_conversations s1 u = [c]"
    by (simp add: user_conversations_def new_conversation_def)
  then have "first (order_by_desc (conversation_tie e) c_updated_at (user_conversations s1 u)) = Some c"
    by (simp add: first_def order_by_desc_def)
  then show ?thesis by (rule get_or_create_conversation_found)
qed

theorem get_or_create_conversation_twice_witness:
  "get_or_create_conversation ticking empty_store 7 =
     (Inr \<lparr>c_id = 0, c_user_id = 7, c_created_at = 0, c_updated_at = 1\<rparr>,
      \<lparr>conversations = [\<lparr>c_id = 0, c_user_id = 7, c_created_at = 0, c_updated_at = 1\<rparr>],
       messages = [], next_uuid = 1, ticks = 2, commits = 1, agent_log = []\<rparr>) \<and>
   get_or_create_conversation ticking
      \<lparr>conversations = [\<lparr>c_id = 0, c_user_id = 7, c_created_at = 0, c_updated_at = 1\<rparr>],
       messages = [], next_uuid = 1, ticks = 2, commits = 1, agent_log = []\<rparr> 7 =
     (Inr \<lparr>c_id = 0, c_user_id = 7, c_created_at = 0, c_updated_at = 1\<rparr>,
      \<lparr>conversations = [\<lparr>c_id = 0, c_user_id = 7, c_created_at = 0, c_updated_at = 1\<rparr>],
       messages = [], next_uuid = 1, ticks = 2, commits = 1, agent_log = []\<rparr>)"
  using get_or_create_conversation_twice [OF first_get_or_create] first_get_or_create
  by (rule conjI [rotated])

text \<open>
  C7, as amended. \<open>get_conversation\<close> stores no message. For a user who has a
  conversation it leaves the store as it is. For a user who has none it creates one: when
  the store accepts the commit, one Conversation row owned by the user is added and its
  identifier is returned; when the store refuses, no row is added and the call raises.
\<close>

theorem get_conversation_effect:
  "messages (snd (get_conversation e s u)) = messages s \<and>
   (user_conversations s u \<noteq> [] \<longrightarrow> snd (get_conversation e s u) = s) \<and>
   (user_conversations s u = [] \<longrightarrow> commit_fault e (commits s) = None \<longrightarrow>
      conversations (snd (get_conversation e s u)) = conversations s @ [new_conversation e s u] \<and>
      (\<exists>v. fst (get_conversation e s u) = Inr v \<and> r_id v = next_uuid s)) \<and>
   (user_conversations s u = [] \<longrightarrow> commit_fault e (commits s) \<noteq> None \<longrightarrow>
      conversations (snd (get_conversation e s u)) = conversations s \<and>
      (\<exists>x. fst (get_conversation e s u) = Inl x))"
proof (cases "first (order_by_desc (conversation_tie e) c_updated_at (user_conversations s u))")
  case (Some c)
  then have "user_conversations s u \<noteq> []" using first_order_by_desc_None [of "conversation_tie e" c_updated_at "user_conversations s u"] by auto
  with Some show ?thesis
    by (simp add: get_conversation_def get_or_create_conversation_found)
next
  case None
  then have none: "user_conversations s u = []" by (simp add: first_order_by_desc_None)
  then show ?thesis
    by (auto simp: get_conversation_def get_or_create_conversation_new new_conversation_def
        split: option.splits)
qed

theorem get_conversation_effect_witness:
  "user_conversations empty_store 7 = [] \<and> commit_fault ticking (commits empty_store) = None \<and>
   conversations (snd (get_conversation ticking empty_store 7)) =
     conversations empty_store @ [new_conversation ticking empty_store 7] \<and>
   new_conversation ticking empty_store 7 =
     \<lparr>c_id = 0, c_user_id = 7, c_created_at = 0, c_updated_at = 1\<rparr> \<and>
   user_conversations after_hello 7 \<noteq> [] \<and>
   snd (get_conversation ticking after_hello 7) = after_hello \<and>
   commit_fault refusing (commits empty_store) \<noteq> None \<and>
   conversations (snd (get_conversation refusing empty_store 7)) = conversations empty_store"
proof -
  have h1: "user_conversations empty_store 7 = []"
    by (simp add: user_conversations_def empty_store_def)
  have h2: "commit_fault ticking (commits empty_store) = None" by (simp add: ticking_def)
  have h3: "user_conversations after_hello 7 \<noteq> []"
    by (simp add: user_conversations_def after_hello_eq)
  have h4: "commit_fault refusing (commits empty_store) \<noteq> None"
    by (simp add: refusing_def)
  have v: "new_conversation ticking empty_store 7 =
     \<lparr>c_id = 0, c_user_id = 7, c_created_at = 0, c_updated_at = 1\<rparr>"
    by (simp add: new_conversation_def ticking_def empty_store_def)
  from get_conversation_effect [of ticking empty_store 7] h1 h2
  have a: "conversations (snd (get_conversation ticking empty_store 7)) =
     conversations empty_store @ [new_conversation ticking empty_store 7]" by blast
  from get_conversation_effect [of ticking after_hello 7] h3
  have b: "snd (get_conversation ticking after_hello 7) = after_hello" by blast
  from get_conversation_effect [of refusing empty_store 7] h1 h4
  have c: "conversations (snd (get_conversation refusing empty_store 7)) = conversations empty_store"
    by blast
  from h1 h2 h3 h4 v a b c show ?thesis by blast
qed

text \<open>
  C7 as stated fails: on the empty store, \<open>GET /conversations\<close> for user 7 leaves a
  Conversation row behind.
\<close>

theorem read_creates_conversation:
  "conversations empty_store = [] \<and>
   get_conversation ticking empty_store 7 =
     (Inr \<lparr>r_id = 0, r_messages = [], r_updated_at = 1\<rparr>,
      \<lparr>conversations = [\<lparr>c_id = 0, c_user_id = 7, c_created_at = 0, c_updated_at = 1\<rparr>],
       messages = [], next_uuid = 1, ticks = 2, commits = 1, agent_log = []\<rparr>)"
  by (simp add: get_conversation_new_user) (simp add: empty_store_def)

text \<open>
  C9, as amended. No failure of a turn is swallowed by \<open>chat\<close>: the caller gets a
  response message exactly when the turn has no failure, status 400 with the fixed text
  exactly when the input is blank, and for every other failure status 500 whose detail is
  the text of the exception. Nothing else of the failure reaches the caller.
\<close>

theorem chat_reports_failures:
  "(turn_failure e s u body = None \<longleftrightarrow> (\<exists>m. fst (chat e s u body) = Response m)) \<and>
   (turn_failure e s u body = Some ValidationError \<longleftrightarrow>
      fst (chat e s u body) = HTTPException 400 (ascii ''Message cannot be empty'')) \<and>
   (\<forall>k. turn_failure e s u body = Some k \<longrightarrow> k \<noteq> ValidationError \<longrightarrow>
      (\<exists>x s'. process_user_message e s u body = (Inl x, s') \<and>
          chat e s u body = (HTTPException 500 (str x), s')))"
  by (auto simp: turn_failure_def chat_def split: prod.splits sum.splits exn.splits if_splits)

theorem chat_reports_failures_witness:
  "turn_failure ticking empty_store 7 (ascii ''Hello'') = None \<and>
   fst (chat ticking empty_store 7 (ascii ''Hello'')) =
     Response \<lparr>m_id = 2, m_conversation_id = 0, m_role = (ascii ''assistant''),
                m_content = (ascii ''Hi there''), m_created_at = 4\<rparr> \<and>
   turn_failure ticking empty_store 7 (ascii '' '') = Some ValidationError \<and>
   fst (chat ticking empty_store 7 (ascii '' '')) = HTTPException 400 (ascii ''Message cannot be empty'') \<and>
   turn_failure disconnected empty_store 7 (ascii ''Hello'') = Some AgentError \<and>
   fst (chat disconnected empty_store 7 (ascii ''Hello'')) = HTTPException 500 (ascii ''connection lost'')"
proof -
  have h1: "turn_failure ticking empty_store 7 (ascii ''Hello'') = None"
    by (simp add: turn_failure_def strip_Hello hello_turn)
  have h2: "turn_failure ticking empty_store 7 (ascii '' '') = Some ValidationError"
    by (simp add: turn_failure_def strip_blank)
  have h3: "turn_failure disconnected empty_store 7 (ascii ''Hello'') = Some AgentError"
    by (simp add: turn_failure_def strip_Hello disconnected_turn)
  from chat_reports_failures [of ticking empty_store 7 "(ascii ''Hello'')"] h1
  obtain m where "fst (chat ticking empty_store 7 (ascii ''Hello'')) = Response m" by blast
  then have a: "fst (chat ticking empty_store 7 (ascii ''Hello'')) =
     Response \<lparr>m_id = 2, m_conversation_id = 0, m_role = (ascii ''assistant''),
                m_content = (ascii ''Hi there''), m_created_at = 4\<rparr>"
    by (simp add: chat_def strip_Hello hello_turn)
  from chat_reports_failures [of ticking empty_store 7 "(ascii '' '')"] h2
  have b: "fst (chat ticking empty_store 7 (ascii '' '')) = HTTPException 400 (ascii ''Message cannot be empty'')"
    by blast
  from chat_reports_failures [of disconnected empty_store 7 "(ascii ''Hello'')"] h3
  obtain x s' where "process_user_message disconnected empty_store 7 (ascii ''Hello'') = (Inl x, s')"
    "chat disconnected empty_store 7 (ascii ''Hello'') = (HTTPException 500 (str x), s')"
    by blast
  then have c: "fst (chat disconnected empty_store 7 (ascii ''Hello'')) = HTTPException 500 (ascii ''connection lost'')"
    by (auto simp: disconnected_turn)
  from h1 h2 h3 a b c show ?thesis by blast
qed

text \<open>
  C9 as stated fails: a refused commit of the user message (a persistence error), an
  exception of the agent (an agent error) and a refused commit of the assistant message
  (a post-agent persistence error) give the caller the same response when the exception
  texts are the same.
\<close>

theorem failure_kinds_share_a_response:
  "turn_failure (refusing_at 1) empty_store 7 (ascii ''Hello'') = Some PersistenceError \<and>
   fst (chat (refusing_at 1) empty_store 7 (ascii ''Hello'')) = HTTPException 500 (ascii ''connection lost'') \<and>
   turn_failure disconnected empty_store 7 (ascii ''Hello'') = Some AgentError \<and>
   fst (chat disconnected empty_store 7 (ascii ''Hello'')) = HTTPException 500 (ascii ''connection lost'') \<and>
   turn_failure (refusing_at 2) empty_store 7 (ascii ''Hello'') = Some PostAgentPersistenceError \<and>
   fst (chat (refusing_at 2) empty_store 7 (ascii ''Hello'')) = HTTPException 500 (ascii ''connection lost'')"
proof -
  have e: "agent_log empty_store = []" by (simp add: empty_store_def)
  show ?thesis
    by (simp add: turn_failure_def chat_def strip_Hello refused_user_turn
        refused_assistant_turn disconnected_turn e del: One_nat_def)
qed








text \<open>
  C8, as amended. In a turn that reaches the agent (the conversation was resolved and the
  user's message stored), the one call logged is for this user with the role/content
  projection of \<open>get_recent_messages\<close> read after the user's message was stored; that
  window is ordered by creation time, and it holds the message just stored when the
  conversation had fewer than 50 messages. Where the clock strictly advances (every
  reading is greater than the readings before it, and the stored creation times are
  earlier readings), the message just stored is the last of the window, so the last entry
  of the history is the current user message. For a user who had no conversation, after a
  first complete turn the history of the second turn has three entries; with such a clock
  they are the first user message, the assistant's reply and the new user message.
\<close>

theorem history_ends_with_user_message:
  assumes g: "get_or_create_conversation e s u = (Inr conv, s1)"
    and st: "store_message e s1 (c_id conv) (ascii ''user'') body = (Inr um, s2)"
  shows "agent_log (snd (process_user_message e s u body)) =
           agent_log s @ [(u, history_of e s2 (c_id conv))] \<and>
         history_of e s2 (c_id conv) =
           map (\<lambda>m. (m_role m, m_content m)) (get_recent_messages e s2 (c_id conv) 50) \<and>
         sorted (map m_created_at (get_recent_messages e s2 (c_id conv) 50)) \<and>
         (length (conversation_messages s (c_id conv)) < 50 \<longrightarrow>
            um \<in> set (get_recent_messages e s2 (c_id conv) 50)) \<and>
         (strict_mono (clk e) \<longrightarrow> clock_stamped e s \<longrightarrow>
            last (get_recent_messages e s2 (c_id conv) 50) = um \<and>
            last (history_of e s2 (c_id conv)) = ((ascii ''user''), body)) \<and>
         (\<forall>am sa body2.
            user_conversations s u = [] \<longrightarrow> fresh_ids s \<longrightarrow>
            process_user_message e s u body = (Inr am, sa) \<longrightarrow>
            commit_fault e (commits sa) = None \<longrightarrow>
            (\<exists>h. agent_log (snd (process_user_message e sa u body2)) = agent_log sa @ [(u, h)] \<and>
                 length h = 3 \<and>
                 (strict_mono (clk e) \<longrightarrow>
                    h = [((ascii ''user''), body), ((ascii ''assistant''), m_content am), ((ascii ''user''), body2)])))"
proof -
  have a: "agent_log (snd (process_user_message e s u body)) =
           agent_log s @ [(u, history_of e s2 (c_id conv))]"
    using g st by (rule turn_history)
  have h: "history_of e s2 (c_id conv) =
           map (\<lambda>m. (m_role m, m_content m)) (get_recent_messages e s2 (c_id conv) 50)"
    by (simp add: history_of_def)
  have d: "sorted (map m_created_at (get_recent_messages e s2 (c_id conv) 50))"
    by (rule recent_sorted)
  have i: "length (conversation_messages s (c_id conv)) < 50 \<longrightarrow>
            um \<in> set (get_recent_messages e s2 (c_id conv) 50)"
    using user_message_included [OF g st] by blast
  have c: "last (get_recent_messages e s2 (c_id conv) 50) = um \<and>
            last (history_of e s2 (c_id conv)) = ((ascii ''user''), body)"
    if strict: "strict_mono (clk e)" and stamped: "clock_stamped e s"
  proof -
    have b: "last (get_recent_messages e s2 (c_id conv) 50) = um"
      "um \<in> set (get_recent_messages e s2 (c_id conv) 50)"
      using user_message_last [OF strict stamped g st, of 50] by simp_all
    from b(2) have ne: "get_recent_messages e s2 (c_id conv) 50 \<noteq> []" by auto
    from store_message_Inr(1) [OF st] have "m_role um = (ascii ''user'')" "m_content um = body"
      by (simp_all add: new_message_def)
    with b(1) ne show ?thesis by (simp add: history_of_def last_map)
  qed
  have f: "\<forall>am sa body2.
            user_conversations s u = [] \<longrightarrow> fresh_ids s \<longrightarrow>
            process_user_message e s u body = (Inr am, sa) \<longrightarrow>
            commit_fault e (commits sa) = None \<longrightarrow>
            (\<exists>h. agent_log (snd (process_user_message e sa u body2)) = agent_log sa @ [(u, h)] \<and>
                 length h = 3 \<and>
                 (strict_mono (clk e) \<longrightarrow>
                    h = [((ascii ''user''), body), ((ascii ''assistant''), m_content am), ((ascii ''user''), body2)]))"
    using second_turn_history by blast
  from c have c': "strict_mono (clk e) \<longrightarrow> clock_stamped e s \<longrightarrow>
            last (get_recent_messages e s2 (c_id conv) 50) = um \<and>
            last (history_of e s2 (c_id conv)) = ((ascii ''user''), body)" by blast
  show ?thesis by (intro conjI a h d i c' f)
qed

theorem history_ends_with_user_message_witness:
  "get_or_create_conversation ticking empty_store 7 =
     (Inr \<lparr>c_id = 0, c_user_id = 7, c_created_at = 0, c_updated_at = 1\<rparr>, resolved) \<and>
   store_message ticking resolved 0 (ascii ''user'') (ascii ''Hello'') =
     (Inr \<lparr>m_id = 1, m_conversation_id = 0, m_role = (ascii ''user''), m_content = (ascii ''Hello''),
           m_created_at = 2\<rparr>, user_stored) \<and>
   agent_log (snd (process_user_message ticking empty_store 7 (ascii ''Hello''))) =
     agent_log empty_store @ [(7, history_of ticking user_stored 0)] \<and>
   history_of ticking user_stored 0 = [((ascii ''user''), (ascii ''Hello''))] \<and>
   length (conversation_messages empty_store 0) < 50 \<and>
   \<lparr>m_id = 1, m_conversation_id = 0, m_role = (ascii ''user''), m_content = (ascii ''Hello''),
     m_created_at = 2\<rparr> \<in> set (get_recent_messages ticking user_stored 0 50) \<and>
   strict_mono (clk ticking) \<and> clock_stamped ticking empty_store \<and>
   last (history_of ticking user_stored 0) = ((ascii ''user''), (ascii ''Hello'')) \<and>
   user_conversations empty_store 7 = [] \<and> fresh_ids empty_store \<and>
   process_user_message ticking empty_store 7 (ascii ''Hello'') =
     (Inr \<lparr>m_id = 2, m_conversation_id = 0, m_role = (ascii ''assistant''), m_content = (ascii ''Hi there''),
           m_created_at = 4\<rparr>, after_hello) \<and>
   commit_fault ticking (commits after_hello) = None \<and>
   (\<exists>h. agent_log (snd (process_user_message ticking after_hello 7 (ascii ''What is next?''))) =
          agent_log after_hello @ [(7, h)] \<and>
        length h = 3 \<and>
        h = [((ascii ''user''), (ascii ''Hello'')), ((ascii ''assistant''), (ascii ''Hi there'')), ((ascii ''user''), (ascii ''What is next?''))])"
proof -
  let ?c = "\<lparr>c_id = 0, c_user_id = 7, c_created_at = 0, c_updated_at = 1\<rparr>"
  let ?um = "\<lparr>m_id = 1, m_conversation_id = 0, m_role = (ascii ''user''), m_content = (ascii ''Hello''),
           m_created_at = 2\<rparr>"
  let ?am = "\<lparr>m_id = 2, m_conversation_id = 0, m_role = (ascii ''assistant''), m_content = (ascii ''Hi there''),
           m_created_at = 4\<rparr>"
  have h1: "strict_mono (clk ticking)" by (rule strict_mono_ticking)
  have h2: "clock_stamped ticking empty_store" by (rule clock_stamped_empty)
  have h3: "get_or_create_conversation ticking empty_store 7 = (Inr ?c, resolved)"
    by (simp add: first_get_or_create resolved_eq)
  have h4: "store_message ticking resolved (c_id ?c) (ascii ''user'') (ascii ''Hello'') = (Inr ?um, user_stored)"
    by (simp add: user_stored_turn)
  have h5: "user_conversations empty_store 7 = []"
    by (simp add: user_conversations_def empty_store_def)
  have h6: "fresh_ids empty_store" by (rule fresh_ids_empty)
  have h7: "process_user_message ticking empty_store 7 (ascii ''Hello'') = (Inr ?am, after_hello)"
    by (simp add: hello_turn after_hello_eq)
  have h8: "commit_fault ticking (commits after_hello) = None" by (simp add: ticking_def)
  have h9: "length (conversation_messages empty_store 0) < 50"
    by (simp add: conversation_messages_def empty_store_def)
  note t = history_ends_with_user_message [OF h3 h4]
  from t have a: "agent_log (snd (process_user_message ticking empty_store 7 (ascii ''Hello''))) =
     agent_log empty_store @ [(7, history_of ticking user_stored 0)]" by simp
  from t h1 h2 have "last (history_of ticking user_stored (c_id ?c)) = ((ascii ''user''), (ascii ''Hello''))"
    by blast
  then have b: "last (history_of ticking user_stored 0) = ((ascii ''user''), (ascii ''Hello''))" by simp
  from t h9 have i: "?um \<in> set (get_recent_messages ticking user_stored 0 50)" by simp
  have c: "history_of ticking user_stored 0 = [((ascii ''user''), (ascii ''Hello''))]"
    by (simp add: history_of_def get_recent_messages_def conversation_messages_def
        order_by_desc_def user_stored_messages)
  from t h5 h6 h7 h8 obtain h where
    h: "agent_log (snd (process_user_message ticking after_hello 7 (ascii ''What is next?''))) =
          agent_log after_hello @ [(7, h)]" "length h = 3"
      "strict_mono (clk ticking) \<longrightarrow>
         h = [((ascii ''user''), (ascii ''Hello'')), ((ascii ''assistant''), m_content ?am), ((ascii ''user''), (ascii ''What is next?''))]"
    by blast
  from h(3) h1 h2
  have "h = [((ascii ''user''), (ascii ''Hello'')), ((ascii ''assistant''), (ascii ''Hi there'')), ((ascii ''user''), (ascii ''What is next?''))]"
    by simp
  with h(1,2) have d: "\<exists>h. agent_log (snd (process_user_message ticking after_hello 7 (ascii ''What is next?''))) =
          agent_log after_hello @ [(7, h)] \<and>
        length h = 3 \<and>
        h = [((ascii ''user''), (ascii ''Hello'')), ((ascii ''assistant''), (ascii ''Hi there'')), ((ascii ''user''), (ascii ''What is next?''))]"
    by blast
  from h4 have h4': "store_message ticking resolved 0 (ascii ''user'') (ascii ''Hello'') = (Inr ?um, user_stored)"
    by simp
  show ?thesis by (intro conjI h3 h4' a c h9 i h1 h2 b h5 h6 h7 h8 d)
qed

text \<open>
  C8 as stated fails: when the clock is set back between a user's first and second turn,
  the history of the second turn is ordered by creation time with the new user message
  first, and its last entry is the assistant's earlier reply. The three creation times
  are different, so the order the store gives to equal keys plays no part.
\<close>

theorem history_does_not_end_with_user_message:
  "process_user_message rewound empty_store 7 (ascii ''Hello'') =
     (Inr \<lparr>m_id = 2, m_conversation_id = 0, m_role = (ascii ''assistant''), m_content = (ascii ''Hi there''),
           m_created_at = 104\<rparr>, after_hello_rewound) \<and>
   agent_log (snd (process_user_message rewound after_hello_rewound 7 (ascii ''What is next?''))) =
     [(7, [((ascii ''user''), (ascii ''Hello''))]),
      (7, [((ascii ''user''), (ascii ''What is next?'')), ((ascii ''user''), (ascii ''Hello'')), ((ascii ''assistant''), (ascii ''Hi there''))])]"
  by (simp add: rewound_second_turn) (simp add: rewound_first_turn after_hello_rewound_eq)

end
